theory Spec2Isabelle
  imports Main "HOL-Library.AList"
begin

text \<open>
  A model of the campaign pipeline of \<open>cmaker\<close>: the loader of campaign briefs, the campaign
  processor, the image processor and the outpainting step of the image generator.  Functions
  keep the names of the source; a leading underscore is dropped (\<open>_sanitize_product_name\<close> is
  \<open>sanitize_product_name\<close>).  The definitions come first, section by section as the modules of
  the source, then the properties.
\<close>

section \<open>Python strings\<close>

text \<open>
  A Python \<open>str\<close> is a sequence of code points.  The text that lives in the world (paths,
  the text of YAML files, log messages, the text of an overlay) is \<^typ>\<open>string\<close>, read as
  the code points below 256 (Latin-1): \<open>of_char c\<close> is the code point of \<open>c\<close>.  On this
  range \<open>str.isspace\<close> is the predicate below.
\<close>

definition py_isspace :: "char \<Rightarrow> bool" where
  "py_isspace c =
     (let n = (of_char c :: nat)
      in (9 \<le> n \<and> n \<le> 13) \<or> (28 \<le> n \<and> n \<le> 32) \<or> n = 133 \<or> n = 160)"

definition py_strip :: "string \<Rightarrow> string" where
  "py_strip s = dropWhile py_isspace (rev (dropWhile py_isspace (rev s)))"

text \<open>
  Product names and language names are sequences of arbitrary code points, since what is
  proved of \<open>_sanitize_product_name\<close> and \<open>_get_language_code\<close> speaks of every \<open>str\<close>.
\<close>

type_synonym ustr = "nat list"

definition codes :: "string \<Rightarrow> ustr" where
  "codes s = map of_char s"

text \<open>
  The code points for which \<open>str.isspace\<close> holds.  \<open>str.strip\<close> and the class \<open>\s\<close> of a
  \<open>str\<close> pattern use the same test.
\<close>

definition is_whitespace :: "nat \<Rightarrow> bool" where
  "is_whitespace c =
     ((9 \<le> c \<and> c \<le> 13) \<or> (28 \<le> c \<and> c \<le> 32) \<or> c = 133 \<or> c = 160 \<or> c = 5760
      \<or> (8192 \<le> c \<and> c \<le> 8202) \<or> c = 8232 \<or> c = 8233 \<or> c = 8239 \<or> c = 8287 \<or> c = 12288)"

definition str_strip :: "ustr \<Rightarrow> ustr" where
  "str_strip s = dropWhile is_whitespace (rev (dropWhile is_whitespace (rev s)))"

text \<open>
  \<open>str.lower\<close>.  A \<open>str\<close> of ASCII characters is mapped character by character.  Any other
  \<open>str\<close> goes through the Unicode character database: the full lower-case mapping takes a
  code point to one or more code points (\<open>U+0130\<close> to two), and the capital sigma \<open>U+03A3\<close>
  (931) becomes the final sigma \<open>U+03C2\<close> (962) when a cased character stands before it and
  none after it, case-ignorable characters skipped, and the small sigma \<open>U+03C3\<close> (963)
  otherwise.  The database is a parameter: the mapping and the two properties.
\<close>

record unicode_data =
  to_lower_full :: "nat \<Rightarrow> nat list"
  is_cased :: "nat \<Rightarrow> bool"
  is_case_ignorable :: "nat \<Rightarrow> bool"

definition ascii_lower :: "nat \<Rightarrow> nat" where
  "ascii_lower c = (if 65 \<le> c \<and> c \<le> 90 then c + 32 else c)"

text \<open>\<open>before\<close> holds the code points before the sigma, the nearest one first.\<close>

definition handle_capital_sigma :: "unicode_data \<Rightarrow> ustr \<Rightarrow> ustr \<Rightarrow> nat" where
  "handle_capital_sigma ucd before after =
     (let b = dropWhile (is_case_ignorable ucd) before;
          final_sigma = (b \<noteq> [] \<and> is_cased ucd (hd b));
          a = dropWhile (is_case_ignorable ucd) after;
          final_sigma = (final_sigma \<and> (a = [] \<or> \<not> is_cased ucd (hd a)))
      in if final_sigma then 962 else 963)"

definition lower_ucs4 :: "unicode_data \<Rightarrow> ustr \<Rightarrow> nat \<Rightarrow> ustr \<Rightarrow> ustr" where
  "lower_ucs4 ucd before c after =
     (if c = 931 then [handle_capital_sigma ucd before after] else to_lower_full ucd c)"

fun do_lower :: "unicode_data \<Rightarrow> ustr \<Rightarrow> ustr \<Rightarrow> ustr" where
  "do_lower ucd before [] = []"
| "do_lower ucd before (c # after) =
     lower_ucs4 ucd before c after @ do_lower ucd (c # before) after"

definition str_lower :: "unicode_data \<Rightarrow> ustr \<Rightarrow> ustr" where
  "str_lower ucd s = (if \<forall>c \<in> set s. c < 128 then map ascii_lower s else do_lower ucd [] s)"

section \<open>Product names and language codes (campaign\_processing.py)\<close>

text \<open>
  The characters that \<open>re.sub(r"[^a-zA-Z0-9\s-]", "", product)\<close> keeps; 45 is the hyphen.
\<close>

definition kept_char :: "nat \<Rightarrow> bool" where
  "kept_char c =
     ((97 \<le> c \<and> c \<le> 122) \<or> (65 \<le> c \<and> c \<le> 90) \<or> (48 \<le> c \<and> c \<le> 57) \<or> is_whitespace c
      \<or> c = 45)"

text \<open>
  \<open>re.sub(r"\s+", "_", s)\<close>: every maximal run of whitespace becomes one underscore (95).
\<close>

function sub_ws_runs :: "ustr \<Rightarrow> ustr" where
  "sub_ws_runs [] = []"
| "sub_ws_runs (c # cs) =
     (if is_whitespace c then 95 # sub_ws_runs (dropWhile is_whitespace cs)
      else c # sub_ws_runs cs)"
  by pat_completeness auto
termination
  by (relation "measure length") (auto simp: less_Suc_eq_le length_dropWhile_le)

definition sanitize_product_name :: "unicode_data \<Rightarrow> ustr \<Rightarrow> ustr" where
  "sanitize_product_name ucd product =
     (let sanitized = filter kept_char product;
          sanitized = sub_ws_runs (str_strip sanitized)
      in str_lower ucd sanitized)"

definition language_codes :: "(ustr \<times> ustr) list" where
  "language_codes =
     [(codes ''English'', codes ''en''), (codes ''German'', codes ''de''),
      (codes ''French'', codes ''fr''), (codes ''Spanish'', codes ''es''),
      (codes ''Italian'', codes ''it''), (codes ''Portuguese'', codes ''pt''),
      (codes ''Dutch'', codes ''nl''), (codes ''Russian'', codes ''ru''),
      (codes ''Chinese'', codes ''zh''), (codes ''Japanese'', codes ''ja''),
      (codes ''Korean'', codes ''ko'')]"

definition get_language_code :: "unicode_data \<Rightarrow> ustr \<Rightarrow> ustr" where
  "get_language_code ucd language =
     (case map_of language_codes language of
        Some code \<Rightarrow> code
      | None \<Rightarrow> take 2 (str_lower ucd language))"

text \<open>
  Two names that differ only in the case of ASCII letters or in characters that the first
  substitution deletes: the names are read left to right, a character of either name that
  is not kept may be skipped, and the remaining characters agree up to the case of the
  letters \<open>A\<close> to \<open>Z\<close>.
\<close>

inductive same_up_to_case_and_stripped :: "ustr \<Rightarrow> ustr \<Rightarrow> bool" where
  both_empty: "same_up_to_case_and_stripped [] []"
| same_letter: "ascii_lower a = ascii_lower b \<Longrightarrow> same_up_to_case_and_stripped s t
     \<Longrightarrow> same_up_to_case_and_stripped (a # s) (b # t)"
| extra_left: "\<not> kept_char a \<Longrightarrow> same_up_to_case_and_stripped s t
     \<Longrightarrow> same_up_to_case_and_stripped (a # s) t"
| extra_right: "\<not> kept_char b \<Longrightarrow> same_up_to_case_and_stripped s t
     \<Longrightarrow> same_up_to_case_and_stripped s (b # t)"

definition name_key :: "ustr \<Rightarrow> ustr" where
  "name_key s = map ascii_lower (filter kept_char s)"

section \<open>Exceptions, YAML values, images and the world\<close>

text \<open>
  Exceptions are values.  Each constructor is the most specific Python class raised at the
  places modelled; all of them are subclasses of \<open>Exception\<close>.  \<open>RemoteError\<close> stands for
  whatever the remote client raises.
\<close>

datatype py_error =
    AttributeError | TypeError | KeyError | IndexError | ValueError
  | FileNotFoundError | FileExistsError | IsADirectoryError | NotADirectoryError
  | UnicodeDecodeError | YAMLError | Base64Error | UnidentifiedImageError
  | RemoteError string

text \<open>
  What \<open>yaml.safe_load\<close> returns: null, booleans, integers, strings, sequences and mappings
  (floats and timestamps are left out).  A mapping is an association list in insertion order.
\<close>

datatype yaml =
    YNull | YBool bool | YInt int | YStr string | YList "yaml list" | YDict "(yaml \<times> yaml) list"

type_synonym brief = "(yaml \<times> yaml) list"

fun py_truthy :: "yaml \<Rightarrow> bool" where
  "py_truthy YNull = False"
| "py_truthy (YBool b) = b"
| "py_truthy (YInt n) = (n \<noteq> 0)"
| "py_truthy (YStr s) = (s \<noteq> [])"
| "py_truthy (YList xs) = (xs \<noteq> [])"
| "py_truthy (YDict kv) = (kv \<noteq> [])"

text \<open>\<open>d.get(key, default)\<close> and \<open>d[key] = value\<close> for a string key.\<close>

definition dict_get :: "(yaml \<times> yaml) list \<Rightarrow> string \<Rightarrow> yaml \<Rightarrow> yaml" where
  "dict_get d key dflt = (case map_of d (YStr key) of Some v \<Rightarrow> v | None \<Rightarrow> dflt)"

definition dict_set :: "(yaml \<times> yaml) list \<Rightarrow> string \<Rightarrow> yaml \<Rightarrow> (yaml \<times> yaml) list" where
  "dict_set d key v = AList.update (YStr key) v d"

text \<open>
  A raster image: size, mode and the colour of each position (the bands of a pixel as a list).
  Positions outside the size carry no meaning.
\<close>

type_synonym colour = "int list"
type_synonym pixels = "int \<times> int \<Rightarrow> colour"

record image =
  im_size :: "int \<times> int"
  im_mode :: string
  im_pixels :: pixels

type_synonym path = string

text \<open>
  A file is known by what its readers get from it: the value \<open>yaml.safe_load\<close> parses, a text
  that \<open>yaml.safe_load\<close> rejects with \<open>YAMLError\<close>, or an encoded image (which is not UTF-8
  text).
\<close>

datatype disk_file = Yaml yaml | BadYaml | Picture image

datatype level = DEBUG | INFO | WARNING | ERROR | EXCEPTION

text \<open>A log message is kept as the pieces of its f-string.\<close>

datatype part = Lit string | Val yaml | Num int | Exc py_error

type_synonym log_record = "level \<times> part list"

text \<open>
  The world: the directories and files that exist, the names \<open>Path.iterdir\<close> yields for a
  directory (in the order of the operating system), the image objects in memory (a reference
  is an index into \<open>heap\<close>), the value of \<open>datetime.now().isoformat()\<close>, and the calls made to
  the logger.
\<close>

record world =
  dirs :: "path set"
  files :: "path \<rightharpoonup> disk_file"
  children :: "path \<Rightarrow> string list"
  heap :: "image list"
  clock :: string
  log_records :: "log_record list"

text \<open>A call returns a value or raises; the world it leaves behind is there in both cases.\<close>

type_synonym 'a result = "(py_error + 'a) \<times> world"

definition log_msg :: "level \<Rightarrow> part list \<Rightarrow> world \<Rightarrow> world" where
  "log_msg l m w = w\<lparr>log_records := log_records w @ [(l, m)]\<rparr>"

text \<open>\<open>parent / name\<close> for a single relative component, on a normalised parent.\<close>

definition join :: "path \<Rightarrow> string \<Rightarrow> path" where
  "join p n = p @ ''/'' @ n"

definition path_exists :: "world \<Rightarrow> path \<Rightarrow> bool" where
  "path_exists w p = (p \<in> dirs w \<or> files w p \<noteq> None)"

text \<open>\<open>with open(p, "r") as f: yaml.safe_load(f)\<close>\<close>

definition yaml_load_path :: "world \<Rightarrow> path \<Rightarrow> py_error + yaml" where
  "yaml_load_path w p =
     (if p \<in> dirs w then Inl IsADirectoryError
      else case files w p of
             None \<Rightarrow> Inl FileNotFoundError
           | Some (Yaml y) \<Rightarrow> Inr y
           | Some BadYaml \<Rightarrow> Inl YAMLError
           | Some (Picture _) \<Rightarrow> Inl UnicodeDecodeError)"

section \<open>Configuration (config.py)\<close>

definition CAMPAIGNS_DIR :: path where "CAMPAIGNS_DIR = ''campaigns''"
definition RESULTS_DIR :: string where "RESULTS_DIR = ''results''"
definition ASSETS_DIR :: string where "ASSETS_DIR = ''assets''"
definition BRIEF_FILE :: string where "BRIEF_FILE = ''brief.yaml''"

section \<open>Loading campaign briefs (campaign\_loading.py)\<close>

text \<open>
  Lines 30 to 39 of \<open>load_campaign_briefs\<close>: the result is \<open>True\<close> when the loop continues
  with the next folder.  A marker that parses to a true value other than a mapping has no
  \<open>get\<close>; only \<open>YAMLError\<close> is caught.
\<close>

definition check_completed :: "string \<Rightarrow> path \<Rightarrow> world \<Rightarrow> bool result" where
  "check_completed name campaign_dir w =
     (let meta_file = join campaign_dir ''meta.yaml''
      in if path_exists w meta_file then
           (case yaml_load_path w meta_file of
              Inr meta_data \<Rightarrow>
                (if py_truthy meta_data then
                   (case meta_data of
                      YDict kv \<Rightarrow>
                        (if dict_get kv ''status'' (YStr []) = YStr ''done''
                         then (Inr True,
                               log_msg INFO [Lit ''Skipping completed campaign: '', Lit name] w)
                         else (Inr False, w))
                    | _ \<Rightarrow> (Inl AttributeError, w))
                 else (Inr False, w))
            | Inl YAMLError \<Rightarrow>
                (Inr False,
                 log_msg WARNING
                   [Lit ''Failed to parse meta.yaml for '', Lit name, Lit '': '', Exc YAMLError] w)
            | Inl e \<Rightarrow> (Inl e, w))
         else (Inr False, w))"

text \<open>
  Lines 41 to 51.  Item assignment on a parsed value that is not a mapping raises
  \<open>TypeError\<close>, which is not caught.
\<close>

definition load_brief :: "string \<Rightarrow> path \<Rightarrow> brief list \<Rightarrow> world \<Rightarrow> brief list result" where
  "load_brief name campaign_dir briefs w =
     (let brief_file = join campaign_dir BRIEF_FILE
      in if path_exists w brief_file then
           (case yaml_load_path w brief_file of
              Inr (YDict brief_data) \<Rightarrow>
                (let brief_data = dict_set brief_data ''campaign_name'' (YStr name);
                     brief_data = dict_set brief_data ''campaign_path'' (YStr campaign_dir)
                 in (Inr (briefs @ [brief_data]),
                     log_msg INFO [Lit ''Loaded campaign: '', Lit name] w))
            | Inr _ \<Rightarrow> (Inl TypeError, w)
            | Inl YAMLError \<Rightarrow>
                (Inr briefs,
                 log_msg ERROR
                   [Lit ''Failed to parse '', Lit brief_file, Lit '': '', Exc YAMLError] w)
            | Inl e \<Rightarrow> (Inl e, w))
         else (Inr briefs, w))"

text \<open>The loop over \<open>campaigns_path.iterdir()\<close>.\<close>

fun scan_campaigns :: "path \<Rightarrow> string list \<Rightarrow> brief list \<Rightarrow> world \<Rightarrow> brief list result" where
  "scan_campaigns root [] briefs w = (Inr briefs, w)"
| "scan_campaigns root (name # names) briefs w =
     (let campaign_dir = join root name
      in if campaign_dir \<in> dirs w then
           (case check_completed name campaign_dir w of
              (Inl e, w') \<Rightarrow> (Inl e, w')
            | (Inr True, w') \<Rightarrow> scan_campaigns root names briefs w'
            | (Inr False, w') \<Rightarrow>
                (case load_brief name campaign_dir briefs w' of
                   (Inl e, w'') \<Rightarrow> (Inl e, w'')
                 | (Inr briefs', w'') \<Rightarrow> scan_campaigns root names briefs' w''))
         else scan_campaigns root names briefs w)"

definition campaigns_root :: "path option \<Rightarrow> path" where
  "campaigns_root campaigns_dir = (case campaigns_dir of None \<Rightarrow> CAMPAIGNS_DIR | Some d \<Rightarrow> d)"

definition load_campaign_briefs :: "path option \<Rightarrow> world \<Rightarrow> brief list result" where
  "load_campaign_briefs campaigns_dir w =
     (let campaigns_path = campaigns_root campaigns_dir
      in if \<not> path_exists w campaigns_path then
           (Inr [], log_msg ERROR [Lit ''Campaigns directory not found: '', Lit campaigns_path] w)
         else if campaigns_path \<notin> dirs w then (Inl NotADirectoryError, w)
         else scan_campaigns campaigns_path (children w campaigns_path) [] w)"

text \<open>The marker of a campaign folder reports \<open>status = done\<close>.\<close>

definition marked_done :: "world \<Rightarrow> path \<Rightarrow> bool" where
  "marked_done w campaign_dir =
     (join campaign_dir ''meta.yaml'' \<notin> dirs w \<and>
      (case files w (join campaign_dir ''meta.yaml'') of
         Some (Yaml (YDict kv)) \<Rightarrow> map_of kv (YStr ''status'') = Some (YStr ''done'')
       | _ \<Rightarrow> False))"

text \<open>
  The marker of a campaign folder lets the loader go on to the brief: there is none, or it is
  not YAML, or it parses to a false value, or to a mapping whose status is not \<open>done\<close>.
\<close>

definition marker_open :: "world \<Rightarrow> path \<Rightarrow> bool" where
  "marker_open w campaign_dir =
     (join campaign_dir ''meta.yaml'' \<notin> dirs w \<and>
      (case files w (join campaign_dir ''meta.yaml'') of
         None \<Rightarrow> True
       | Some BadYaml \<Rightarrow> True
       | Some (Yaml (YDict kv)) \<Rightarrow> dict_get kv ''status'' (YStr []) \<noteq> YStr ''done''
       | Some (Yaml y) \<Rightarrow> \<not> py_truthy y
       | Some (Picture _) \<Rightarrow> False))"

text \<open>The brief file of a campaign folder exists and is malformed.\<close>

definition brief_malformed :: "world \<Rightarrow> path \<Rightarrow> bool" where
  "brief_malformed w campaign_dir =
     (join campaign_dir BRIEF_FILE \<notin> dirs w \<and>
      files w (join campaign_dir BRIEF_FILE) = Some BadYaml)"

definition campaign_name_of :: "brief \<Rightarrow> yaml option" where
  "campaign_name_of b = map_of b (YStr ''campaign_name'')"

definition campaign_path_of :: "brief \<Rightarrow> yaml option" where
  "campaign_path_of b = map_of b (YStr ''campaign_path'')"

text \<open>The second world is the first one with more log records.\<close>

definition only_logs :: "world \<Rightarrow> world \<Rightarrow> bool" where
  "only_logs w w' = (\<exists>l. w' = w\<lparr>log_records := log_records w @ l\<rparr>)"

text \<open>No brief of the list was made from the folder \<open>name\<close> under \<open>root\<close>.\<close>

definition none_from :: "path \<Rightarrow> string \<Rightarrow> brief list \<Rightarrow> bool" where
  "none_from root name bs =
     (\<forall>b \<in> set bs. campaign_name_of b \<noteq> Some (YStr name)
        \<and> campaign_path_of b \<noteq> Some (YStr (join root name)))"

section \<open>The imaging library and the remote services\<close>

datatype font = TrueType path int | DefaultFont

text \<open>
  What the code takes from the imaging library without computing it: the pixel data of a
  Lanczos resize and of a mode conversion, whether the encoder and the operating system refuse
  to save an image at a path (and with which exception), whether a font file can be opened, the
  bounding box of a text in a font, the pixels a drawn text sets, and the composition of two
  colours.  The functions below add the bookkeeping of size and mode from the documentation of
  the library.
\<close>

record imaging =
  resample :: "image \<Rightarrow> int \<times> int \<Rightarrow> pixels"
  convert_pixels :: "string \<Rightarrow> string \<Rightarrow> pixels \<Rightarrow> pixels"
  save_error :: "image \<Rightarrow> path \<Rightarrow> world \<Rightarrow> py_error option"
  truetype_ok :: "path \<Rightarrow> bool"
  getbbox :: "font \<Rightarrow> string \<Rightarrow> int \<times> int \<times> int \<times> int"
  text_pixels :: "font \<Rightarrow> string \<Rightarrow> int \<times> int \<Rightarrow> colour \<Rightarrow> pixels \<Rightarrow> pixels"
  blend :: "colour \<Rightarrow> colour \<Rightarrow> colour"

text \<open>
  The remote image-edit call (it raises, or returns the \<open>b64_json\<close> field of each item of
  \<open>result.data\<close>), \<open>base64.b64decode\<close> and the decoder behind \<open>Image.open\<close>.
\<close>

record services =
  images_edit :: "disk_file option \<Rightarrow> disk_file option \<Rightarrow> string \<Rightarrow> py_error + string option list"
  b64decode :: "string \<Rightarrow> nat list option"
  image_open :: "nat list \<Rightarrow> image option"

definition image_new :: "string \<Rightarrow> int \<times> int \<Rightarrow> colour \<Rightarrow> image" where
  "image_new mode sz c = \<lparr>im_size = sz, im_mode = mode, im_pixels = (\<lambda>_. c)\<rparr>"

definition image_resize :: "imaging \<Rightarrow> image \<Rightarrow> int \<times> int \<Rightarrow> image" where
  "image_resize lib im sz =
     \<lparr>im_size = sz, im_mode = im_mode im, im_pixels = resample lib im sz\<rparr>"

definition image_crop :: "image \<Rightarrow> int \<times> int \<times> int \<times> int \<Rightarrow> image" where
  "image_crop im box =
     (case box of (left, upper, right, lower) \<Rightarrow>
        \<lparr>im_size = (right - left, lower - upper), im_mode = im_mode im,
         im_pixels = (\<lambda>(x, y). im_pixels im (x + left, y + upper))\<rparr>)"

definition image_convert :: "imaging \<Rightarrow> image \<Rightarrow> string \<Rightarrow> image" where
  "image_convert lib im mode =
     im\<lparr>im_mode := mode, im_pixels := convert_pixels lib (im_mode im) mode (im_pixels im)\<rparr>"

definition draw_rectangle :: "image \<Rightarrow> int \<times> int \<times> int \<times> int \<Rightarrow> colour \<Rightarrow> image" where
  "draw_rectangle im box fill =
     (case box of (x0, y0, x1, y1) \<Rightarrow>
        im\<lparr>im_pixels := (\<lambda>(x, y). if x0 \<le> x \<and> x \<le> x1 \<and> y0 \<le> y \<and> y \<le> y1 then fill
                                  else im_pixels im (x, y))\<rparr>)"

definition draw_text :: "imaging \<Rightarrow> image \<Rightarrow> int \<times> int \<Rightarrow> string \<Rightarrow> font \<Rightarrow> colour \<Rightarrow> image" where
  "draw_text lib im xy text fnt fill = im\<lparr>im_pixels := text_pixels lib fnt text xy fill (im_pixels im)\<rparr>"

text \<open>\<open>Image.alpha_composite\<close> raises \<open>ValueError\<close> unless both images are RGBA of one size.\<close>

definition alpha_composite :: "imaging \<Rightarrow> image \<Rightarrow> image \<Rightarrow> py_error + image" where
  "alpha_composite lib im1 im2 =
     (if im_mode im1 \<noteq> ''RGBA'' \<or> im_mode im2 \<noteq> ''RGBA'' \<or> im_size im1 \<noteq> im_size im2
      then Inl ValueError
      else Inr (im1\<lparr>im_pixels := (\<lambda>p. blend lib (im_pixels im1 p) (im_pixels im2 p))\<rparr>))"

text \<open>Writing a file; a path that is a directory cannot be opened for writing.\<close>

definition write_file :: "path \<Rightarrow> disk_file \<Rightarrow> world \<Rightarrow> unit result" where
  "write_file p f w =
     (if p \<in> dirs w then (Inl IsADirectoryError, w)
      else (Inr (), w\<lparr>files := (files w)(p \<mapsto> f)\<rparr>))"

definition image_save :: "imaging \<Rightarrow> image \<Rightarrow> path \<Rightarrow> world \<Rightarrow> unit result" where
  "image_save lib im p w =
     (case save_error lib im p w of
        Some e \<Rightarrow> (Inl e, w)
      | None \<Rightarrow> write_file p (Picture im) w)"

text \<open>Image objects live in the heap; a new object gets the next index.\<close>

type_synonym ref = nat

definition alloc :: "image \<Rightarrow> world \<Rightarrow> ref \<times> world" where
  "alloc im w = (length (heap w), w\<lparr>heap := heap w @ [im]\<rparr>)"

definition deref :: "world \<Rightarrow> ref \<Rightarrow> image" where
  "deref w r = heap w ! r"

definition store :: "ref \<Rightarrow> image \<Rightarrow> world \<Rightarrow> world" where
  "store r im w = w\<lparr>heap := (heap w)[r := im]\<rparr>"

section \<open>Cropping and text overlay (image\_processing.py)\<close>

definition FONT_SIZE :: int where "FONT_SIZE = 48"
definition TEXT_OPACITY :: int where "TEXT_OPACITY = 200"

definition FONT_PATHS :: "path list" where
  "FONT_PATHS = [''/System/Library/Fonts/Helvetica.ttc'', ''/System/Library/Fonts/Arial.ttf'']"

text \<open>
  \<open>int(n * self.config.MARGIN_PERCENTAGE)\<close> with \<open>MARGIN_PERCENTAGE = 0.05\<close>.  The double
  nearest to 0.05 lies above it by less than \<open>3e-18\<close>, so for the sizes of images the
  rounded product truncates to \<open>n div 20\<close>.
\<close>

definition margin :: "int \<Rightarrow> int" where
  "margin n = n div 20"

text \<open>Lines 47 to 56 of \<open>crop_to_ratio\<close>: the image that is saved.\<close>

definition final_result :: "imaging \<Rightarrow> image \<Rightarrow> string \<Rightarrow> py_error + image" where
  "final_result lib image_in ratio =
     (if ratio = ''16x9'' then
        (let resized_image = image_resize lib image_in (1536, 1536)
         in Inr (image_crop resized_image (0, 336, 1536, 1200)))
      else if ratio = ''9x16'' then
        (let resized_image = image_resize lib image_in (1536, 1536)
         in Inr (image_crop resized_image (336, 0, 1200, 1536)))
      else Inl ValueError)"

definition crop_to_ratio :: "imaging \<Rightarrow> image \<Rightarrow> path \<Rightarrow> string \<Rightarrow> world \<Rightarrow> unit result" where
  "crop_to_ratio lib image_in out_path ratio w =
     (let (iw, ih) = im_size image_in;
          w = log_msg DEBUG
                [Lit ''Input size for '', Lit ratio, Lit '' conversion: '', Num iw, Lit ''x'', Num ih] w
      in case final_result lib image_in ratio of
           Inl e \<Rightarrow> (Inl e, w)
         | Inr final \<Rightarrow>
             (case image_save lib final out_path w of
                (Inl e, w) \<Rightarrow> (Inl e, w)
              | (Inr _, w) \<Rightarrow>
                  (Inr (),
                   log_msg INFO
                     [Lit ''Saved: '', Lit out_path, Lit '' ('', Num (fst (im_size final)), Lit ''x'',
                      Num (snd (im_size final)), Lit '')''] w)))"

text \<open>The world in which \<open>crop_to_ratio\<close> saves: the input size has been logged.\<close>

definition crop_log :: "image \<Rightarrow> string \<Rightarrow> world \<Rightarrow> world" where
  "crop_log im ratio w =
     log_msg DEBUG [Lit ''Input size for '', Lit ratio, Lit '' conversion: '',
              Num (fst (im_size im)), Lit ''x'', Num (snd (im_size im))] w"

text \<open>
  \<open>_get_font\<close>: the first font file that opens, else the default font.  The caller tests the
  result against \<open>None\<close>, so the result is an option.
\<close>

definition get_font :: "imaging \<Rightarrow> int \<Rightarrow> font option" where
  "get_font lib font_size =
     Some (case find (truetype_ok lib) FONT_PATHS of
             Some font_path \<Rightarrow> TrueType font_path font_size
           | None \<Rightarrow> DefaultFont)"

text \<open>\<open>range(initial_font_size, 12, -4)\<close>\<close>

function font_sizes :: "int \<Rightarrow> int list" where
  "font_sizes n = (if 12 < n then n # font_sizes (n - 4) else [])"
  by pat_completeness auto
termination
  by (relation "measure (\<lambda>n. nat (n - 12))") auto

declare font_sizes.simps [simp del]

text \<open>
  The loop of \<open>_find_optimal_text_layout\<close>.  The tuple \<open>(None, None, 0, 0)\<close> is \<open>None\<close> here.
\<close>

fun layout_loop ::
  "imaging \<Rightarrow> string \<Rightarrow> int list \<Rightarrow> int \<Rightarrow> int \<Rightarrow> world
     \<Rightarrow> (font \<times> string \<times> int \<times> int) option \<times> world" where
  "layout_loop lib text [] max_width max_height w = (None, w)"
| "layout_loop lib text (font_size # rest) max_width max_height w =
     (case get_font lib font_size of
        None \<Rightarrow> layout_loop lib text rest max_width max_height w
      | Some fnt \<Rightarrow>
          (let (x0, y0, x1, y1) = getbbox lib fnt text;
               text_width = x1 - x0;
               text_height = y1 - y0
           in if text_width \<le> max_width \<and> text_height \<le> max_height
              then (Some (fnt, text, text_width, text_height),
                    log_msg DEBUG [Lit ''Found optimal layout: font_size='', Num font_size] w)
              else layout_loop lib text rest max_width max_height w))"

definition find_optimal_text_layout ::
  "imaging \<Rightarrow> string \<Rightarrow> int \<Rightarrow> int \<Rightarrow> int \<Rightarrow> world
     \<Rightarrow> (font \<times> string \<times> int \<times> int) option \<times> world" where
  "find_optimal_text_layout lib text initial_font_size max_width max_height w =
     layout_loop lib text (font_sizes initial_font_size) max_width max_height w"

text \<open>
  \<open>add_text_overlay\<close> takes and returns references to image objects.  \<open>image.copy()\<close>,
  \<open>Image.new\<close>, \<open>convert\<close> and \<open>alpha_composite\<close> make new objects; drawing changes the overlay
  in place.
\<close>

definition add_text_overlay ::
  "imaging \<Rightarrow> ref \<Rightarrow> string \<Rightarrow> int option \<Rightarrow> int option \<Rightarrow> world \<Rightarrow> ref result" where
  "add_text_overlay lib image_in text font_size opacity w =
     (if text = [] \<or> py_strip text = [] then (Inr image_in, w)
      else
        (let font_size = (case font_size of None \<Rightarrow> FONT_SIZE | Some n \<Rightarrow> n);
             opacity = (case opacity of None \<Rightarrow> TEXT_OPACITY | Some n \<Rightarrow> n);
             (img, w) = alloc (deref w image_in) w;
             (img_width, img_height) = im_size (deref w img);
             margin_x = margin img_width;
             margin_y = margin img_height;
             available_width = img_width - 2 * margin_x;
             available_height = img_height - 2 * margin_y;
             (layout, w) =
               find_optimal_text_layout lib text font_size available_width available_height w
         in case layout of
              None \<Rightarrow>
                (Inr img,
                 log_msg WARNING
                   [Lit ''Could not fit text in available space, using original text''] w)
            | Some (final_font, final_text, final_width, final_height) \<Rightarrow>
                (let x = img_width - final_width - margin_x;
                     y = img_height - final_height - margin_y;
                     (overlay, w) = alloc (image_new ''RGBA'' (im_size (deref w img)) [0, 0, 0, 0]) w;
                     padding = 10;
                     w = store overlay
                           (draw_rectangle (deref w overlay)
                              (x - padding, y - padding, x + final_width + padding,
                               y + final_height + padding)
                              [0, 0, 0, 100]) w;
                     w = store overlay
                           (draw_text lib (deref w overlay) (x, y) final_text final_font
                              [255, 255, 255, opacity]) w;
                     (img, w) = (if im_mode (deref w img) \<noteq> ''RGBA''
                                 then alloc (image_convert lib (deref w img) ''RGBA'') w
                                 else (img, w))
                 in case alpha_composite lib (deref w img) (deref w overlay) of
                      Inl e \<Rightarrow> (Inl e, w)
                    | Inr composed \<Rightarrow> (case alloc composed w of (img, w) \<Rightarrow> (Inr img, w)))))"

text \<open>A font size at which the text fits the space, as the loop tests it.\<close>

definition text_fits :: "imaging \<Rightarrow> string \<Rightarrow> int \<Rightarrow> int \<Rightarrow> int \<Rightarrow> bool" where
  "text_fits lib text max_width max_height font_size =
     (case get_font lib font_size of
        None \<Rightarrow> False
      | Some fnt \<Rightarrow>
          (case getbbox lib fnt text of (x0, y0, x1, y1) \<Rightarrow>
             x1 - x0 \<le> max_width \<and> y1 - y0 \<le> max_height))"

text \<open>The space that \<open>add_text_overlay\<close> leaves for the text on an image of a given size.\<close>

definition available :: "int \<Rightarrow> int" where
  "available n = n - 2 * margin n"

section \<open>Outpainting (image\_generation.py)\<close>

definition make_outpaint_mask :: "image \<Rightarrow> int \<times> int \<times> int \<times> int \<Rightarrow> image" where
  "make_outpaint_mask canvas inner_box =
     (let mask = image_new ''L'' (im_size canvas) [0]
      in draw_rectangle mask inner_box [255])"

definition os_remove :: "path \<Rightarrow> world \<Rightarrow> unit result" where
  "os_remove p w =
     (if p \<in> dirs w then (Inl IsADirectoryError, w)
      else if files w p = None then (Inl FileNotFoundError, w)
      else (Inr (), w\<lparr>files := (files w)(p := None)\<rparr>))"

text \<open>Lines 111 and 112: \<open>result.data[0].b64_json\<close> and \<open>base64.b64decode\<close>.\<close>

definition payload :: "services \<Rightarrow> string option list \<Rightarrow> py_error + nat list" where
  "payload svc data =
     (case data of
        [] \<Rightarrow> Inl IndexError
      | item # _ \<Rightarrow>
          (case item of
             None \<Rightarrow> Inl TypeError
           | Some img_b64 \<Rightarrow>
               (case b64decode svc img_b64 of
                  None \<Rightarrow> Inl Base64Error
                | Some img_bytes \<Rightarrow> Inr img_bytes)))"

definition outpaint_with_dalle ::
  "imaging \<Rightarrow> services \<Rightarrow> image \<Rightarrow> int \<times> int \<times> int \<times> int \<Rightarrow> string \<Rightarrow> world \<Rightarrow> image result" where
  "outpaint_with_dalle lib svc canvas inner_box prompt w =
     (let canvas = (if im_mode canvas \<noteq> ''RGBA'' then image_convert lib canvas ''RGBA'' else canvas);
          temp_image_path = ''temp_canvas.png'';
          temp_mask_path = ''temp_mask.png''
      in case image_save lib canvas temp_image_path w of
           (Inl e, w) \<Rightarrow> (Inl e, w)
         | (Inr _, w) \<Rightarrow>
             (let w = log_msg DEBUG [Lit ''Outpainting with DALL-E 2 at 1024x1024''] w;
                  mask = make_outpaint_mask canvas inner_box
              in case write_file temp_mask_path (Picture mask) w of
                   (Inl e, w) \<Rightarrow> (Inl e, w)
                 | (Inr _, w) \<Rightarrow>
                     (case images_edit svc (files w temp_image_path) (files w temp_mask_path)
                             (take 999 prompt) of
                        Inl e \<Rightarrow> (Inl e, w)
                      | Inr data \<Rightarrow>
                          (case payload svc data of
                             Inl e \<Rightarrow> (Inl e, w)
                           | Inr img_bytes \<Rightarrow>
                               (case os_remove temp_image_path w of
                                  (Inl e, w) \<Rightarrow> (Inl e, w)
                                | (Inr _, w) \<Rightarrow>
                                    (case os_remove temp_mask_path w of
                                       (Inl e, w) \<Rightarrow> (Inl e, w)
                                     | (Inr _, w) \<Rightarrow>
                                         (case image_open svc img_bytes of
                                            None \<Rightarrow> (Inl UnidentifiedImageError, w)
                                          | Some im \<Rightarrow> (Inr im, w))))))))"

text \<open>The canvas that \<open>outpaint_with_dalle\<close> writes to the temporary file.\<close>

definition rgba_canvas :: "imaging \<Rightarrow> image \<Rightarrow> image" where
  "rgba_canvas lib canvas =
     (if im_mode canvas \<noteq> ''RGBA'' then image_convert lib canvas ''RGBA'' else canvas)"

section \<open>Processing campaigns (campaign\_processing.py)\<close>

text \<open>
  \<open>_process_single_product\<close> drives the remote services and the imaging library for one
  product.  Its signature is kept; what it does to the world and whether it raises are left
  open, so that what is proved of its callers holds for every behaviour of it.
\<close>

type_synonym worker = "brief \<Rightarrow> yaml \<Rightarrow> yaml \<Rightarrow> path \<Rightarrow> path \<Rightarrow> yaml \<Rightarrow> world \<Rightarrow> unit result"

text \<open>Iterating over a parsed value: the items of a sequence, the characters of a string, the
  keys of a mapping; anything else is not iterable.\<close>

fun py_iter :: "yaml \<Rightarrow> py_error + yaml list" where
  "py_iter (YList xs) = Inr xs"
| "py_iter (YStr s) = Inr (map (\<lambda>c. YStr [c]) s)"
| "py_iter (YDict kv) = Inr (map fst kv)"
| "py_iter _ = Inl TypeError"

text \<open>A key of a mapping that equals the integer \<open>i\<close> (\<open>True == 1\<close> and \<open>False == 0\<close>).\<close>

fun py_key_eq_int :: "int \<Rightarrow> yaml \<Rightarrow> bool" where
  "py_key_eq_int i (YInt n) = (n = i)"
| "py_key_eq_int i (YBool b) = (i = (if b then 1 else 0))"
| "py_key_eq_int i _ = False"

text \<open>\<open>assets[i]\<close> for an index \<open>i\<close> that is not negative.\<close>

fun py_getitem :: "yaml \<Rightarrow> nat \<Rightarrow> py_error + yaml" where
  "py_getitem (YList xs) i = (if i < length xs then Inr (xs ! i) else Inl IndexError)"
| "py_getitem (YStr s) i = (if i < length s then Inr (YStr [s ! i]) else Inl IndexError)"
| "py_getitem (YDict kv) i =
     (case find (\<lambda>(k, v). py_key_eq_int (int i) k) kv of
        Some (k, v) \<Rightarrow> Inr v
      | None \<Rightarrow> Inl KeyError)"
| "py_getitem _ i = Inl TypeError"

text \<open>\<open>(parent / name).mkdir(exist_ok=True)\<close>\<close>

definition mkdir_exist_ok :: "path \<Rightarrow> string \<Rightarrow> world \<Rightarrow> unit result" where
  "mkdir_exist_ok parent name w =
     (let p = join parent name
      in if p \<in> dirs w then (Inr (), w)
         else if files w p \<noteq> None then (Inl FileExistsError, w)
         else if parent \<in> dirs w then (Inr (), w\<lparr>dirs := insert p (dirs w)\<rparr>)
         else if files w parent \<noteq> None then (Inl NotADirectoryError, w)
         else (Inl FileNotFoundError, w))"

text \<open>
  \<open>_mark_campaign_done\<close>.  Opening the marker for writing fails when the campaign folder is
  not there or the marker is a directory; the exception is caught and logged.
\<close>

definition mark_campaign_done :: "path \<Rightarrow> string option \<Rightarrow> world \<Rightarrow> world" where
  "mark_campaign_done campaign_path scene_prompt w =
     (let meta_file = join campaign_path ''meta.yaml'';
          meta_data = [(YStr ''status'', YStr ''done''), (YStr ''completed_at'', YStr (clock w))];
          meta_data = (case scene_prompt of
                         None \<Rightarrow> meta_data
                       | Some s \<Rightarrow> if s \<noteq> [] then meta_data @ [(YStr ''scene_prompt'', YStr s)]
                                   else meta_data)
      in case (if campaign_path \<in> dirs w then write_file meta_file (Yaml (YDict meta_data)) w
               else if files w campaign_path \<noteq> None then (Inl NotADirectoryError, w)
               else (Inl FileNotFoundError, w)) of
           (Inr _, w) \<Rightarrow> log_msg INFO [Lit ''Marked campaign as completed: '', Lit meta_file] w
         | (Inl e, w) \<Rightarrow>
             log_msg ERROR [Lit ''Failed to mark campaign as completed: '', Exc e] w)"

text \<open>The body of the loop over \<open>enumerate(products)\<close>; \<open>n\<close> is \<open>len(products)\<close>.\<close>

definition product_step ::
  "worker \<Rightarrow> brief \<Rightarrow> yaml \<Rightarrow> path \<Rightarrow> path \<Rightarrow> yaml \<Rightarrow> nat \<Rightarrow> nat \<times> yaml \<Rightarrow> world \<Rightarrow> unit result" where
  "product_step worker campaign_brief assets results_path campaign_path languages n ip w =
     (case ip of (i, product) \<Rightarrow>
        (case (case py_getitem assets i of Inl IndexError \<Rightarrow> Inr YNull | r \<Rightarrow> r) of
           Inl e \<Rightarrow> (Inl e, w)
         | Inr asset_file \<Rightarrow>
             worker campaign_brief product asset_file results_path campaign_path languages
               (log_msg INFO
                  [Lit ''Processing product '', Num (int i + 1), Lit ''/'', Num (int n), Lit '': '',
                   Val product] w)))"

text \<open>A loop that an exception of its body leaves.\<close>

fun product_loop :: "('a \<Rightarrow> world \<Rightarrow> unit result) \<Rightarrow> 'a list \<Rightarrow> world \<Rightarrow> unit result" where
  "product_loop step [] w = (Inr (), w)"
| "product_loop step (x # xs) w =
     (case step x w of
        (Inl e, w') \<Rightarrow> (Inl e, w')
      | (Inr _, w') \<Rightarrow> product_loop step xs w')"

definition process_single_campaign :: "worker \<Rightarrow> brief \<Rightarrow> world \<Rightarrow> unit result" where
  "process_single_campaign worker campaign_brief w =
     (case map_of campaign_brief (YStr ''campaign_name'') of
        None \<Rightarrow> (Inl KeyError, w)
      | Some campaign_name \<Rightarrow>
          (case map_of campaign_brief (YStr ''campaign_path'') of
             None \<Rightarrow> (Inl KeyError, w)
           | Some (YStr campaign_path) \<Rightarrow>
               (let w = log_msg INFO [Lit ''Processing campaign: '', Val campaign_name] w;
                    results_path = join campaign_path RESULTS_DIR
                in case mkdir_exist_ok campaign_path RESULTS_DIR w of
                     (Inl e, w) \<Rightarrow> (Inl e, w)
                   | (Inr _, w) \<Rightarrow>
                       (let products = dict_get campaign_brief ''products'' (YList []);
                            assets = dict_get campaign_brief ''assets'' (YList []);
                            languages =
                              dict_get campaign_brief ''languages'' (YList [YStr ''English'']);
                            w = log_msg DEBUG
                                  [Lit ''Will create results structure: '', Lit results_path] w
                        in case py_iter products of
                             Inl e \<Rightarrow> (Inl e, w)
                           | Inr items \<Rightarrow>
                               (case product_loop
                                       (product_step worker campaign_brief assets results_path
                                          campaign_path languages (length items))
                                       (enumerate 0 items) w of
                                  (Inl e, w) \<Rightarrow> (Inl e, w)
                                | (Inr _, w) \<Rightarrow>
                                    (let w = log_msg INFO
                                               [Lit ''Completed processing campaign: '',
                                                Val campaign_name] w;
                                         w = log_msg INFO
                                               [Lit ''Results saved in: '', Lit results_path] w
                                     in (Inr (), mark_campaign_done campaign_path None w)))))
           | Some _ \<Rightarrow> (Inl TypeError, w)))"

text \<open>The loop of \<open>process_all_campaigns\<close>: an exception of a campaign is logged and the loop
  continues.\<close>

fun campaign_loop :: "worker \<Rightarrow> brief list \<Rightarrow> world \<Rightarrow> world" where
  "campaign_loop worker [] w = w"
| "campaign_loop worker (brief # briefs) w =
     (case process_single_campaign worker brief w of
        (Inr _, w') \<Rightarrow> campaign_loop worker briefs w'
      | (Inl e, w') \<Rightarrow>
          campaign_loop worker briefs
            (log_msg EXCEPTION
               [Lit ''Failed to process campaign '',
                Val (dict_get brief ''campaign_name'' (YStr ''unknown'')), Lit '': '', Exc e] w'))"


text \<open>
  The worker, called for a campaign folder of \<open>campaigns\<close>, leaves the paths of \<open>paths\<close> as
  they are: the same file, and a directory or not as before.
\<close>

definition worker_keeps :: "worker \<Rightarrow> path set \<Rightarrow> path set \<Rightarrow> bool" where
  "worker_keeps worker campaigns paths =
     (\<forall>campaign_brief product asset_file results_path campaign_path languages w.
        campaign_path \<in> campaigns \<longrightarrow>
        (\<forall>p \<in> paths.
           files (snd (worker campaign_brief product asset_file results_path campaign_path
                         languages w)) p = files w p
           \<and> (p \<in> dirs (snd (worker campaign_brief product asset_file results_path campaign_path
                         languages w))) = (p \<in> dirs w)))"

text \<open>The path \<open>p\<close> is in the second world what it is in the first.\<close>

definition same_at :: "path \<Rightarrow> world \<Rightarrow> world \<Rightarrow> bool" where
  "same_at p w w' = (files w' p = files w p \<and> (p \<in> dirs w') = (p \<in> dirs w))"


section \<open>Example values\<close>

text \<open>
  Concrete values for the examples: an imaging library that keeps pixels as they are, saves
  everything, has no font file and measures ten units per character; two remote services,
  one that raises and one that returns an empty \<open>data\<close> list; white square images; a world
  with two of them in memory and an empty disk.
\<close>

definition plain_imaging :: imaging where
  "plain_imaging =
     \<lparr>resample = (\<lambda>im sz. im_pixels im),
      convert_pixels = (\<lambda>from_mode to_mode px. px),
      save_error = (\<lambda>im p w. None),
      truetype_ok = (\<lambda>p. False),
      getbbox = (\<lambda>fnt s. (0, 0, 10 * int (length s), 12)),
      text_pixels = (\<lambda>fnt s xy fill px. px),
      blend = (\<lambda>a b. b)\<rparr>"

definition white_square :: "int \<Rightarrow> image" where
  "white_square n = image_new ''RGB'' (n, n) [255, 255, 255]"

definition studio :: world where
  "studio =
     \<lparr>dirs = {}, files = Map.empty, children = (\<lambda>p. []),
      heap = [white_square 20, white_square 100],
      clock = ''2025-01-02T00:00:00'', log_records = []\<rparr>"

definition empty_reply :: services where
  "empty_reply =
     \<lparr>images_edit = (\<lambda>image_file mask_file prompt. Inr []),
      b64decode = (\<lambda>s. Some []),
      image_open = (\<lambda>bytes. None)\<rparr>"

definition failing_remote :: services where
  "failing_remote =
     \<lparr>images_edit = (\<lambda>image_file mask_file prompt. Inl (RemoteError ''rate limit'')),
      b64decode = (\<lambda>s. Some []),
      image_open = (\<lambda>bytes. None)\<rparr>"

text \<open>
  A worker for the examples: it refuses the product \<open>bad\<close> and writes one picture into the
  campaign folder for any other product.
\<close>

definition picky_worker :: worker where
  "picky_worker campaign_brief product asset_file results_path campaign_path languages w =
     (if product = YStr ''bad'' then (Inl (RemoteError ''refused''), w)
      else (Inr (), w\<lparr>files := (files w)(join campaign_path ''hero.png'' \<mapsto>
                                            Picture (white_square 20))\<rparr>))"

text \<open>
  Three campaigns as the loader returns them from the world below; the second one has a
  product that the worker refuses.
\<close>

definition brief_a :: brief where
  "brief_a =
     [(YStr ''products'', YList [YStr ''Tea'']), (YStr ''campaign_name'', YStr ''a''),
      (YStr ''campaign_path'', YStr ''campaigns/a'')]"

definition brief_b :: brief where
  "brief_b =
     [(YStr ''products'', YList [YStr ''Mug'', YStr ''bad'', YStr ''Cup'']),
      (YStr ''campaign_name'', YStr ''b''), (YStr ''campaign_path'', YStr ''campaigns/b'')]"

definition brief_c :: brief where
  "brief_c =
     [(YStr ''products'', YList [YStr ''Pot'']), (YStr ''campaign_name'', YStr ''c''),
      (YStr ''campaign_path'', YStr ''campaigns/c'')]"

definition three_folders :: world where
  "three_folders =
     \<lparr>dirs = {''campaigns'', ''campaigns/a'', ''campaigns/b'', ''campaigns/c''},
      files = [''campaigns/a/brief.yaml'' \<mapsto> Yaml (YDict [(YStr ''products'', YList [YStr ''Tea''])]),
               ''campaigns/b/brief.yaml'' \<mapsto>
                 Yaml (YDict [(YStr ''products'', YList [YStr ''Mug'', YStr ''bad'', YStr ''Cup''])]),
               ''campaigns/c/brief.yaml'' \<mapsto> Yaml (YDict [(YStr ''products'', YList [YStr ''Pot''])])],
      children = (\<lambda>p. if p = ''campaigns'' then [''a'', ''b'', ''c''] else []),
      heap = [],
      clock = ''2025-01-02T00:00:00'',
      log_records = []\<rparr>"

text \<open>Two folders; the first is marked done and has a well-formed brief.\<close>

definition two_campaigns_first_done :: world where
  "two_campaigns_first_done =
     \<lparr>dirs = {''campaigns'', ''campaigns/a'', ''campaigns/b''},
      files = [''campaigns/a/meta.yaml'' \<mapsto>
                 Yaml (YDict [(YStr ''status'', YStr ''done''),
                              (YStr ''completed_at'', YStr ''2025-01-01T00:00:00'')]),
               ''campaigns/a/brief.yaml'' \<mapsto> Yaml (YDict [(YStr ''products'', YList [YStr ''Tea''])]),
               ''campaigns/b/brief.yaml'' \<mapsto> Yaml (YDict [(YStr ''products'', YList [YStr ''Mug''])])],
      children = (\<lambda>p. if p = ''campaigns'' then [''a'', ''b''] else []),
      heap = [],
      clock = ''2025-01-02T00:00:00'',
      log_records = []\<rparr>"

text \<open>Two folders without markers; the brief of the first is malformed.\<close>

definition two_campaigns_first_malformed :: world where
  "two_campaigns_first_malformed =
     \<lparr>dirs = {''campaigns'', ''campaigns/a'', ''campaigns/b''},
      files = [''campaigns/a/brief.yaml'' \<mapsto> BadYaml,
               ''campaigns/b/brief.yaml'' \<mapsto> Yaml (YDict [(YStr ''products'', YList [YStr ''Mug''])])],
      children = (\<lambda>p. if p = ''campaigns'' then [''a'', ''b''] else []),
      heap = [],
      clock = ''2025-01-02T00:00:00'',
      log_records = []\<rparr>"

text \<open>Two folders without markers; the brief file of the first is empty.\<close>

definition two_campaigns_first_empty :: world where
  "two_campaigns_first_empty =
     \<lparr>dirs = {''campaigns'', ''campaigns/a'', ''campaigns/b''},
      files = [''campaigns/a/brief.yaml'' \<mapsto> Yaml YNull,
               ''campaigns/b/brief.yaml'' \<mapsto> Yaml (YDict [(YStr ''products'', YList [YStr ''Mug''])])],
      children = (\<lambda>p. if p = ''campaigns'' then [''a'', ''b''] else []),
      heap = [],
      clock = ''2025-01-02T00:00:00'',
      log_records = []\<rparr>"

text \<open>Two folders with well-formed briefs; the marker of the first holds a YAML sequence.\<close>

definition two_campaigns_first_marker_list :: world where
  "two_campaigns_first_marker_list =
     \<lparr>dirs = {''campaigns'', ''campaigns/a'', ''campaigns/b''},
      files = [''campaigns/a/meta.yaml'' \<mapsto> Yaml (YList [YStr ''done'']),
               ''campaigns/a/brief.yaml'' \<mapsto> Yaml (YDict [(YStr ''products'', YList [YStr ''Tea''])]),
               ''campaigns/b/brief.yaml'' \<mapsto> Yaml (YDict [(YStr ''products'', YList [YStr ''Mug''])])],
      children = (\<lambda>p. if p = ''campaigns'' then [''a'', ''b''] else []),
      heap = [],
      clock = ''2025-01-02T00:00:00'',
      log_records = []\<rparr>"

text \<open>
  The entries of the Unicode character database for the ASCII characters and for the code
  points of the examples: \<open>U+0130\<close> (304, the capital I with a dot above) lowers to \<open>i\<close> and
  the combining dot above \<open>U+0307\<close> (775), and the Kelvin sign \<open>U+212A\<close> (8490) lowers to
  \<open>k\<close> (107).  Every other code point is left as it is.
\<close>

definition unicode_sample :: unicode_data where
  "unicode_sample =
     \<lparr>to_lower_full = (\<lambda>c. if c = 304 then [105, 775] else if c = 8490 then [107]
                           else [ascii_lower c]),
      is_cased = (\<lambda>c. (65 \<le> c \<and> c \<le> 90) \<or> (97 \<le> c \<and> c \<le> 122) \<or> c = 304 \<or> c = 8490),
      is_case_ignorable = (\<lambda>c. c = 39 \<or> c = 46 \<or> c = 58 \<or> c = 94 \<or> c = 96 \<or> c = 775)\<rparr>"

section \<open>Properties of the string functions\<close>

subsection \<open>Character classes\<close>

lemmas char_class_defs = is_whitespace_def kept_char_def ascii_lower_def

lemmas str_eval =
  codes_def sanitize_product_name_def str_strip_def str_lower_def get_language_code_def
  language_codes_def lower_ucs4_def handle_capital_sigma_def unicode_sample_def Let_def
  char_class_defs

lemma is_whitespace_lower [simp]: "is_whitespace (ascii_lower c) = is_whitespace c"
  by (auto simp: char_class_defs)

lemma kept_char_lower [simp]: "kept_char (ascii_lower c) = kept_char c"
  by (auto simp: char_class_defs)

lemma ascii_lower_idem [simp]: "ascii_lower (ascii_lower c) = ascii_lower c"
  by (auto simp: char_class_defs)

lemma lower_eq_kept: "ascii_lower a = ascii_lower b \<Longrightarrow> kept_char a = kept_char b"
  by (metis kept_char_lower)

lemma underscore_class:
  "\<not> kept_char 95" "\<not> is_whitespace 95" "ascii_lower 95 = 95"
  by (simp_all add: char_class_defs)

lemma kept_ascii: "kept_char c \<Longrightarrow> \<not> is_whitespace c \<Longrightarrow> c < 128"
  by (auto simp: char_class_defs)

subsection \<open>Stripping and collapsing whitespace\<close>

lemma sub_ws_runs_set:
  "set (sub_ws_runs xs) \<subseteq> insert 95 {c \<in> set xs. \<not> is_whitespace c}"
proof (induction xs rule: sub_ws_runs.induct)
  case 1
  then show ?case by simp
next
  case (2 c cs)
  show ?case
  proof (cases "is_whitespace c")
    case True
    have "set (dropWhile is_whitespace cs) \<subseteq> set cs"
      by (simp add: set_dropWhileD subsetI)
    with True 2 show ?thesis by auto
  next
    case False
    with 2 show ?thesis by auto
  qed
qed

lemma dropWhile_none: "\<forall>c \<in> set xs. \<not> P c \<Longrightarrow> dropWhile P xs = xs"
  by (cases xs) auto

lemma sub_ws_runs_no_space: "\<forall>c \<in> set xs. \<not> is_whitespace c \<Longrightarrow> sub_ws_runs xs = xs"
  by (induction xs) auto

lemma str_strip_no_space: "\<forall>c \<in> set xs. \<not> is_whitespace c \<Longrightarrow> str_strip xs = xs"
  by (simp add: str_strip_def dropWhile_none)

lemma set_str_strip: "set (str_strip xs) \<subseteq> set xs"
  unfolding str_strip_def
  by (metis set_dropWhileD set_rev subsetI)

lemma sub_ws_runs_lower: "sub_ws_runs (map ascii_lower xs) = map ascii_lower (sub_ws_runs xs)"
  by (induction xs rule: sub_ws_runs.induct)
     (simp_all add: underscore_class dropWhile_map comp_def)

lemma str_strip_lower: "str_strip (map ascii_lower xs) = map ascii_lower (str_strip xs)"
  by (simp add: str_strip_def dropWhile_map comp_def rev_map)

subsection \<open>Sanitized product names\<close>

lemma collapsed_chars:
  assumes "d \<in> set (sub_ws_runs (str_strip (filter kept_char s)))"
  shows "d = 95 \<or> (kept_char d \<and> \<not> is_whitespace d)"
proof -
  from assms sub_ws_runs_set
  have "d = 95 \<or> (d \<in> set (str_strip (filter kept_char s)) \<and> \<not> is_whitespace d)"
    by blast
  with set_str_strip show ?thesis by fastforce
qed

lemma collapsed_ascii: "\<forall>d \<in> set (sub_ws_runs (str_strip (filter kept_char s))). d < 128"
  using collapsed_chars kept_ascii by fastforce

text \<open>The last step of the sanitization never reaches the character database.\<close>

lemma sanitize_ascii:
  "sanitize_product_name ucd s =
     map ascii_lower (sub_ws_runs (str_strip (filter kept_char s)))"
  using collapsed_ascii[of s] by (simp add: sanitize_product_name_def str_lower_def)

lemma sanitize_via_key: "sanitize_product_name ucd s = sub_ws_runs (str_strip (name_key s))"
  by (simp add: sanitize_ascii name_key_def sub_ws_runs_lower str_strip_lower)

lemma sanitize_chars:
  assumes "c \<in> set (sanitize_product_name ucd s)"
  shows "c = 95 \<or> (kept_char c \<and> \<not> is_whitespace c \<and> ascii_lower c = c)"
proof -
  from assms obtain d where d: "d \<in> set (sub_ws_runs (str_strip (filter kept_char s)))"
    and c: "c = ascii_lower d"
    by (auto simp: sanitize_ascii)
  from collapsed_chars[OF d] c show ?thesis
    by (auto simp: underscore_class)
qed

lemma filter_kept_sanitized:
  "\<forall>c \<in> set u. c = 95 \<or> kept_char c
     \<Longrightarrow> filter kept_char u = filter (\<lambda>c. c \<noteq> 95) u"
  by (induction u) (auto simp: underscore_class)

lemma sanitize_twice:
  "sanitize_product_name ucd (sanitize_product_name ucd s) =
     filter (\<lambda>c. c \<noteq> 95) (sanitize_product_name ucd s)"
proof -
  let ?u = "sanitize_product_name ucd s"
  let ?v = "filter (\<lambda>c. c \<noteq> 95) ?u"
  have inv: "\<forall>c \<in> set ?u.
      c = 95 \<or> (kept_char c \<and> \<not> is_whitespace c \<and> ascii_lower c = c)"
    using sanitize_chars by blast
  then have f: "filter kept_char ?u = ?v"
    by (intro filter_kept_sanitized) blast
  have nosp: "\<forall>c \<in> set ?v. \<not> is_whitespace c" using inv by auto
  have low: "map ascii_lower ?v = ?v" using inv by (intro map_idI) auto
  show ?thesis
    unfolding sanitize_ascii[of ucd ?u] f
    by (simp add: str_strip_no_space[OF nosp] sub_ws_runs_no_space[OF nosp] low)
qed

lemma same_key: "same_up_to_case_and_stripped s t \<Longrightarrow> name_key s = name_key t"
  by (induction rule: same_up_to_case_and_stripped.induct)
     (auto simp: name_key_def dest: lower_eq_kept)

lemma tea_set_same: "same_up_to_case_and_stripped (codes ''Tea Set!'') (codes ''tea, set'')"
proof -
  have "same_up_to_case_and_stripped [33] []"
    by (rule extra_left) (simp_all add: char_class_defs both_empty)
  then have "same_up_to_case_and_stripped [116, 33] [116]"
    by (rule same_letter [rotated]) simp
  then have "same_up_to_case_and_stripped [101, 116, 33] [101, 116]"
    by (rule same_letter [rotated]) simp
  then have "same_up_to_case_and_stripped [83, 101, 116, 33] [115, 101, 116]"
    by (rule same_letter [rotated]) (simp add: ascii_lower_def)
  then have "same_up_to_case_and_stripped [32, 83, 101, 116, 33] [32, 115, 101, 116]"
    by (rule same_letter [rotated]) simp
  then have "same_up_to_case_and_stripped [32, 83, 101, 116, 33] [44, 32, 115, 101, 116]"
    by (rule extra_right [rotated]) (simp add: char_class_defs)
  then have "same_up_to_case_and_stripped [97, 32, 83, 101, 116, 33] [97, 44, 32, 115, 101, 116]"
    by (rule same_letter [rotated]) simp
  then have "same_up_to_case_and_stripped [101, 97, 32, 83, 101, 116, 33]
      [101, 97, 44, 32, 115, 101, 116]"
    by (rule same_letter [rotated]) simp
  then have "same_up_to_case_and_stripped [84, 101, 97, 32, 83, 101, 116, 33]
      [116, 101, 97, 44, 32, 115, 101, 116]"
    by (rule same_letter [rotated]) (simp add: ascii_lower_def)
  then show ?thesis by (simp add: codes_def)
qed

text \<open>
  Claim C5, as the code has it.  Sanitizing a sanitized name deletes its underscores, so the
  name is a fixed point exactly when it holds no underscore; and two names that differ only
  in the case of ASCII letters or in characters outside \<open>[a-zA-Z0-9\s-]\<close> have the same
  sanitized name, whatever the character database.
\<close>

theorem sanitize_product_name_resanitized:
  "sanitize_product_name ucd (sanitize_product_name ucd s) =
     filter (\<lambda>c. c \<noteq> 95) (sanitize_product_name ucd s)
   \<and> ((sanitize_product_name ucd (sanitize_product_name ucd s) = sanitize_product_name ucd s) =
        (95 \<notin> set (sanitize_product_name ucd s)))
   \<and> (same_up_to_case_and_stripped s t \<longrightarrow>
        sanitize_product_name ucd s = sanitize_product_name ucd t)"
proof (intro conjI impI)
  show "sanitize_product_name ucd (sanitize_product_name ucd s) =
     filter (\<lambda>c. c \<noteq> 95) (sanitize_product_name ucd s)"
    by (rule sanitize_twice)
  show "(sanitize_product_name ucd (sanitize_product_name ucd s) = sanitize_product_name ucd s) =
        (95 \<notin> set (sanitize_product_name ucd s))"
    unfolding sanitize_twice filter_id_conv by auto
  show "sanitize_product_name ucd s = sanitize_product_name ucd t"
    if "same_up_to_case_and_stripped s t"
    using that by (simp add: sanitize_via_key same_key)
qed

theorem sanitize_product_name_resanitized_witness:
  "same_up_to_case_and_stripped (codes ''Tea Set!'') (codes ''tea, set'')
   \<and> sanitize_product_name unicode_sample (codes ''Tea Set!'') = codes ''tea_set''
   \<and> sanitize_product_name unicode_sample (codes ''tea, set'') = codes ''tea_set''"
proof -
  have "sanitize_product_name unicode_sample (codes ''Tea Set!'') = codes ''tea_set''"
    by (simp add: str_eval)
  with tea_set_same
    sanitize_product_name_resanitized
      [of unicode_sample "codes ''Tea Set!''" "codes ''tea, set''"]
  show ?thesis by simp
qed

text \<open>
  Claim C5 as stated fails: the underscore that replaces a whitespace run is itself deleted
  by a second pass; the hyphen is a punctuation character that is kept; and a letter outside
  ASCII is deleted, not folded: the Kelvin sign and \<open>k\<close> differ only by case for \<open>str.lower\<close>,
  and their names are sanitized differently.
\<close>

theorem sanitize_product_name_not_idempotent:
  "sanitize_product_name unicode_sample (codes ''a b'') = codes ''a_b''
   \<and> sanitize_product_name unicode_sample (sanitize_product_name unicode_sample (codes ''a b''))
       = codes ''ab''
   \<and> sanitize_product_name unicode_sample (sanitize_product_name unicode_sample (codes ''a b''))
       \<noteq> sanitize_product_name unicode_sample (codes ''a b'')
   \<and> sanitize_product_name unicode_sample (codes ''a-b'')
       \<noteq> sanitize_product_name unicode_sample (codes ''ab'')
   \<and> str_lower unicode_sample (8490 # codes ''ettle'') = str_lower unicode_sample (codes ''kettle'')
   \<and> sanitize_product_name unicode_sample (8490 # codes ''ettle'')
       \<noteq> sanitize_product_name unicode_sample (codes ''kettle'')"
  by (simp add: str_eval)

subsection \<open>Language codes\<close>

lemma str_lower_ascii: "\<forall>c \<in> set s. c < 128 \<Longrightarrow> str_lower ucd s = map ascii_lower s"
  by (simp add: str_lower_def)

text \<open>
  Claim C8, as the code has it.  Every name of the table is mapped to its code, a string of
  two characters; every other name is mapped to the first two code points of its lowercased
  form, \<open>language.lower()[:2]\<close>.  For a name of ASCII characters these are the lowercased
  first two characters of the name.
\<close>

theorem get_language_code_table_or_prefix:
  "(\<forall>(name, code) \<in> set language_codes. get_language_code ucd name = code \<and> length code = 2)
   \<and> (\<forall>name. name \<notin> fst ` set language_codes \<longrightarrow>
         get_language_code ucd name = take 2 (str_lower ucd name)
         \<and> ((\<forall>c \<in> set name. c < 128) \<longrightarrow>
               get_language_code ucd name = str_lower ucd (take 2 name)
               \<and> get_language_code ucd name = map ascii_lower (take 2 name)))"
proof (intro conjI allI impI)
  show "\<forall>(name, code) \<in> set language_codes. get_language_code ucd name = code \<and> length code = 2"
    by (simp add: language_codes_def get_language_code_def codes_def)
next
  fix name
  assume "name \<notin> fst ` set language_codes"
  then have none: "map_of language_codes name = None"
    by (simp add: map_of_eq_None_iff)
  then show code: "get_language_code ucd name = take 2 (str_lower ucd name)"
    by (simp add: get_language_code_def)
  assume ascii: "\<forall>c \<in> set name. c < 128"
  then have "\<forall>c \<in> set (take 2 name). c < 128"
    by (meson in_set_takeD)
  with ascii code show "get_language_code ucd name = str_lower ucd (take 2 name)"
    and "get_language_code ucd name = map ascii_lower (take 2 name)"
    by (simp_all add: str_lower_ascii take_map)
qed

theorem get_language_code_table_or_prefix_witness:
  "get_language_code unicode_sample (codes ''German'') = codes ''de''
   \<and> get_language_code unicode_sample (codes ''SWedish'') = codes ''sw''"
proof -
  have "(codes ''German'', codes ''de'') \<in> set language_codes"
    by (simp add: language_codes_def)
  moreover have "codes ''SWedish'' \<notin> fst ` set language_codes"
    by (simp add: language_codes_def codes_def)
  moreover have "\<forall>c \<in> set (codes ''SWedish''). c < 128"
    by (simp add: codes_def)
  moreover have "map ascii_lower (take 2 (codes ''SWedish'')) = codes ''sw''"
    by (simp add: codes_def ascii_lower_def)
  ultimately show ?thesis
    using get_language_code_table_or_prefix [of unicode_sample] by fastforce
qed

text \<open>
  Claim C8 as stated fails: lowercasing can lengthen a name.  The name \<open>U+0130\<close> followed by
  \<open>stanbul\<close> is not in the table; its code is \<open>i\<close> and the combining dot, while its first two
  characters lowercased are three code points.
\<close>

theorem get_language_code_not_lowered_prefix:
  "304 # codes ''stanbul'' \<notin> fst ` set language_codes
   \<and> get_language_code unicode_sample (304 # codes ''stanbul'') = [105, 775]
   \<and> str_lower unicode_sample (take 2 (304 # codes ''stanbul'')) = [105, 775, 115]
   \<and> get_language_code unicode_sample (304 # codes ''stanbul'')
       \<noteq> str_lower unicode_sample (take 2 (304 # codes ''stanbul''))"
  by (simp add: str_eval)

section \<open>Properties of the loader\<close>

subsection \<open>The loader only reads and logs\<close>

lemma only_logs_refl [simp]: "only_logs w w"
  unfolding only_logs_def by (rule exI[of _ "[]"]) simp

lemma only_logs_log_msg [simp]: "only_logs w (log_msg l m w)"
  unfolding only_logs_def log_msg_def by blast

lemma only_logs_trans: "only_logs w w' \<Longrightarrow> only_logs w' w'' \<Longrightarrow> only_logs w w''"
  unfolding only_logs_def by auto

lemma only_logs_fs:
  assumes "only_logs w w'"
  shows "dirs w' = dirs w" "files w' = files w" "children w' = children w"
    "set (log_records w) \<subseteq> set (log_records w')"
  using assms unfolding only_logs_def by auto

lemma check_completed_only_logs: "only_logs w (snd (check_completed name cd w))"
  by (simp add: check_completed_def Let_def split: sum.splits py_error.splits yaml.splits)

lemma load_brief_only_logs: "only_logs w (snd (load_brief name cd bs w))"
  by (simp add: load_brief_def Let_def split: sum.splits py_error.splits yaml.splits)

lemma scan_campaigns_only_logs: "only_logs w (snd (scan_campaigns root names bs w))"
proof (induction names arbitrary: bs w)
  case Nil
  then show ?case by simp
next
  case (Cons name names)
  let ?cd = "join root name"
  show ?case
  proof (cases "?cd \<in> dirs w")
    case False
    with Cons show ?thesis by simp
  next
    case True
    obtain r w1 where c: "check_completed name ?cd w = (r, w1)" by (cases "check_completed name ?cd w")
    have w1: "only_logs w w1" using check_completed_only_logs[of w name ?cd] c by simp
    show ?thesis
    proof (cases r)
      case (Inl e)
      with True c w1 show ?thesis by simp
    next
      case (Inr skip)
      show ?thesis
      proof (cases skip)
        case True
        with \<open>?cd \<in> dirs w\<close> c Inr Cons.IH[where bs=bs and w=w1] w1 show ?thesis
          by (auto intro: only_logs_trans)
      next
        case False
        obtain r2 w2 where l: "load_brief name ?cd bs w1 = (r2, w2)" by (cases "load_brief name ?cd bs w1")
        have w2: "only_logs w w2"
          using load_brief_only_logs[of w1 name ?cd bs] l w1 by (auto intro: only_logs_trans)
        show ?thesis
        proof (cases r2)
          case (Inl e)
          with \<open>?cd \<in> dirs w\<close> c Inr False l w2 show ?thesis by simp
        next
          case (Inr bs')
          with \<open>?cd \<in> dirs w\<close> c \<open>r = Inr skip\<close> False l w2 Cons.IH[where bs="bs'" and w=w2] show ?thesis
            by (auto intro: only_logs_trans)
        qed
      qed
    qed
  qed
qed

lemma marked_done_only_logs: "only_logs w w' \<Longrightarrow> marked_done w' cd = marked_done w cd"
  by (simp add: marked_done_def only_logs_fs)

lemma marker_open_only_logs: "only_logs w w' \<Longrightarrow> marker_open w' cd = marker_open w cd"
  by (simp add: marker_open_def only_logs_fs)

lemma brief_malformed_only_logs: "only_logs w w' \<Longrightarrow> brief_malformed w' cd = brief_malformed w cd"
  by (simp add: brief_malformed_def only_logs_fs)

lemma check_completed_done:
  "marked_done w cd \<Longrightarrow>
   check_completed name cd w =
     (Inr True, log_msg INFO [Lit ''Skipping completed campaign: '', Lit name] w)"
  by (auto simp: marked_done_def check_completed_def path_exists_def yaml_load_path_def dict_get_def
      split: option.splits disk_file.splits yaml.splits)

lemma check_completed_open:
  "marker_open w cd \<Longrightarrow> fst (check_completed name cd w) = Inr False"
  by (auto simp: marker_open_def check_completed_def path_exists_def yaml_load_path_def
      split: option.splits disk_file.splits yaml.splits)

lemma load_brief_malformed:
  "brief_malformed w cd \<Longrightarrow>
   load_brief name cd bs w =
     (Inr bs, log_msg ERROR [Lit ''Failed to parse '', Lit (join cd BRIEF_FILE), Lit '': '',
        Exc YAMLError] w)"
  by (simp add: brief_malformed_def load_brief_def path_exists_def yaml_load_path_def)

lemma scan_campaigns_append:
  "scan_campaigns root (xs @ ys) bs w =
     (case scan_campaigns root xs bs w of
        (Inl e, w') \<Rightarrow> (Inl e, w')
      | (Inr bs', w') \<Rightarrow> scan_campaigns root ys bs' w')"
  by (induction xs arbitrary: bs w) (auto simp: Let_def split: prod.splits sum.splits bool.splits)


subsection \<open>Folders that yield no brief\<close>

lemma join_inject [simp]: "(join p a = join p b) = (a = b)"
  by (simp add: join_def)

lemma load_brief_result:
  assumes "load_brief name cd bs w = (Inr bs', w')"
  shows "bs' = bs \<or> (\<exists>b. bs' = bs @ [b] \<and> campaign_name_of b = Some (YStr name)
            \<and> campaign_path_of b = Some (YStr cd))"
  using assms
  by (auto simp: load_brief_def Let_def dict_set_def campaign_name_of_def campaign_path_of_def
      update_conv' split: if_splits sum.splits py_error.splits yaml.splits)

lemma scan_campaigns_excludes:
  assumes "marked_done w (join root n) \<or> brief_malformed w (join root n)"
    and "scan_campaigns root names bs w = (Inr out, w')"
    and "none_from root n bs"
  shows "none_from root n out"
  using assms
proof (induction names arbitrary: bs w)
  case Nil
  then show ?case by simp
next
  case (Cons m names)
  let ?cd = "join root m"
  show ?case
  proof (cases "?cd \<in> dirs w")
    case False
    with Cons show ?thesis by simp
  next
    case True
    obtain r w1 where c: "check_completed m ?cd w = (r, w1)"
      by (cases "check_completed m ?cd w")
    have w1: "only_logs w w1" using check_completed_only_logs[of w m ?cd] c by simp
    then have h1: "marked_done w1 (join root n) \<or> brief_malformed w1 (join root n)"
      using Cons.prems(1) by (simp add: marked_done_only_logs brief_malformed_only_logs)
    show ?thesis
    proof (cases r)
      case (Inl e)
      with True c Cons.prems(2) show ?thesis by simp
    next
      case (Inr skip)
      show ?thesis
      proof (cases skip)
        case True
        with \<open>?cd \<in> dirs w\<close> c Inr Cons.prems(2)
        have "scan_campaigns root names bs w1 = (Inr out, w')" by simp
        from Cons.IH[OF h1 this Cons.prems(3)] show ?thesis .
      next
        case False
        obtain r2 w2 where l: "load_brief m ?cd bs w1 = (r2, w2)"
          by (cases "load_brief m ?cd bs w1")
        have w2: "only_logs w1 w2" using load_brief_only_logs[of w1 m ?cd bs] l by simp
        then have h2: "marked_done w2 (join root n) \<or> brief_malformed w2 (join root n)"
          using h1 by (simp add: marked_done_only_logs brief_malformed_only_logs)
        show ?thesis
        proof (cases r2)
          case (Inl e)
          with \<open>?cd \<in> dirs w\<close> c \<open>r = Inr skip\<close> False l Cons.prems(2) show ?thesis by simp
        next
          case (Inr bs')
          with \<open>?cd \<in> dirs w\<close> c \<open>r = Inr skip\<close> False l Cons.prems(2)
          have rest: "scan_campaigns root names bs' w2 = (Inr out, w')" by simp
          have "none_from root n bs'"
          proof (cases "m = n")
            case True
            have "\<not> marked_done w ?cd"
              using check_completed_done[of w ?cd m] c \<open>r = Inr skip\<close> False by auto
            with True Cons.prems(1) w1 have "brief_malformed w1 ?cd"
              by (simp add: brief_malformed_only_logs)
            from load_brief_malformed[OF this, of m bs] l Inr have "bs' = bs" by simp
            with Cons.prems(3) show ?thesis by simp
          next
            case neq: False
            from load_brief_result[of m ?cd bs w1 bs' w2] l Inr
            have "bs' = bs \<or> (\<exists>b. bs' = bs @ [b] \<and> campaign_name_of b = Some (YStr m)
                \<and> campaign_path_of b = Some (YStr ?cd))" by simp
            with neq Cons.prems(3) show ?thesis by (auto simp: none_from_def)
          qed
          from Cons.IH[OF h2 rest this] show ?thesis .
        qed
      qed
    qed
  qed
qed

lemma scan_campaigns_past_done:
  assumes "join root name \<in> dirs w" and "marked_done w (join root name)"
  shows "scan_campaigns root (name # rest) bs w =
         scan_campaigns root rest bs
           (log_msg INFO [Lit ''Skipping completed campaign: '', Lit name] w)"
  using assms by (simp add: check_completed_done)

lemma scan_campaigns_past_malformed:
  assumes "join root name \<in> dirs w" and "marker_open w (join root name)"
    and "brief_malformed w (join root name)"
  shows "scan_campaigns root (name # rest) bs w =
         scan_campaigns root rest bs
           (log_msg ERROR [Lit ''Failed to parse '', Lit (join (join root name) BRIEF_FILE),
              Lit '': '', Exc YAMLError] (snd (check_completed name (join root name) w)))"
proof -
  obtain r w1 where c: "check_completed name (join root name) w = (r, w1)"
    by (cases "check_completed name (join root name) w")
  with check_completed_open[OF assms(2), of name] have r: "r = Inr False" by simp
  have "only_logs w w1" using check_completed_only_logs[of w name "join root name"] c by simp
  with assms(3) have "brief_malformed w1 (join root name)"
    by (simp add: brief_malformed_only_logs)
  from load_brief_malformed[OF this] c r assms(1) show ?thesis by simp
qed


subsection \<open>Completed campaigns and malformed briefs\<close>

lemmas loader_eval =
  load_campaign_briefs_def campaigns_root_def CAMPAIGNS_DIR_def BRIEF_FILE_def path_exists_def
  join_def check_completed_def load_brief_def yaml_load_path_def dict_get_def dict_set_def
  log_msg_def Let_def marked_done_def marker_open_def brief_malformed_def
  campaign_name_of_def campaign_path_of_def

text \<open>
  Claim C1.  A campaign folder whose marker reports \<open>status = done\<close> is passed over: the scan
  goes from the folders listed before it straight to the folders listed after it, with the
  briefs collected so far and one more \<open>INFO\<close> record, whatever the brief file of the folder
  holds; and no brief that the loader returns carries the name or the path of the folder.
\<close>

theorem completed_campaign_excluded:
  assumes "root = campaigns_root campaigns_dir"
    and "root \<in> dirs w"
    and "children w root = pre @ name # post"
    and "join root name \<in> dirs w"
    and "marked_done w (join root name)"
  shows "load_campaign_briefs campaigns_dir w =
           (case scan_campaigns root pre [] w of
              (Inl e, w1) \<Rightarrow> (Inl e, w1)
            | (Inr bs, w1) \<Rightarrow>
                scan_campaigns root post bs
                  (log_msg INFO [Lit ''Skipping completed campaign: '', Lit name] w1))
         \<and> (\<forall>briefs w'. load_campaign_briefs campaigns_dir w = (Inr briefs, w') \<longrightarrow>
               (\<forall>b \<in> set briefs. campaign_name_of b \<noteq> Some (YStr name)
                  \<and> campaign_path_of b \<noteq> Some (YStr (join root name))))"
proof (intro conjI allI impI)
  have load: "load_campaign_briefs campaigns_dir w = scan_campaigns root (pre @ name # post) [] w"
    using assms(1-3) by (simp add: load_campaign_briefs_def path_exists_def)
  show "load_campaign_briefs campaigns_dir w =
           (case scan_campaigns root pre [] w of
              (Inl e, w1) \<Rightarrow> (Inl e, w1)
            | (Inr bs, w1) \<Rightarrow>
                scan_campaigns root post bs
                  (log_msg INFO [Lit ''Skipping completed campaign: '', Lit name] w1))"
  proof (cases "scan_campaigns root pre [] w")
    case (Pair r w1)
    have ol: "only_logs w w1" using scan_campaigns_only_logs[of w root pre "[]"] Pair by simp
    then have "join root name \<in> dirs w1" "marked_done w1 (join root name)"
      using assms(4,5) by (simp_all add: only_logs_fs marked_done_only_logs)
    from scan_campaigns_past_done[OF this] Pair load show ?thesis
      by (simp add: scan_campaigns_append split: sum.splits)
  qed
  fix briefs w'
  assume "load_campaign_briefs campaigns_dir w = (Inr briefs, w')"
  with load have "scan_campaigns root (pre @ name # post) [] w = (Inr briefs, w')" by simp
  from scan_campaigns_excludes[OF _ this, of name] assms(5)
  show "\<forall>b \<in> set briefs. campaign_name_of b \<noteq> Some (YStr name)
                  \<and> campaign_path_of b \<noteq> Some (YStr (join root name))"
    by (simp add: none_from_def)
qed

theorem completed_campaign_excluded_witness:
  "marked_done two_campaigns_first_done ''campaigns/a''
   \<and> fst (load_campaign_briefs None two_campaigns_first_done) =
       Inr [[(YStr ''products'', YList [YStr ''Mug'']), (YStr ''campaign_name'', YStr ''b''),
             (YStr ''campaign_path'', YStr ''campaigns/b'')]]"
proof -
  have "campaigns_root None = ''campaigns''"
    by (simp add: campaigns_root_def CAMPAIGNS_DIR_def)
  moreover have "''campaigns'' \<in> dirs two_campaigns_first_done"
    and "children two_campaigns_first_done ''campaigns'' = [] @ ''a'' # [''b'']"
    and "join ''campaigns'' ''a'' \<in> dirs two_campaigns_first_done"
    and "marked_done two_campaigns_first_done (join ''campaigns'' ''a'')"
    by (simp_all add: two_campaigns_first_done_def join_def marked_done_def)
  ultimately show ?thesis
    using completed_campaign_excluded
      [of "''campaigns''" None two_campaigns_first_done "[]" "''a''" "[''b'']"]
    by (simp add: two_campaigns_first_done_def loader_eval)
qed

text \<open>
  A brief file that \<open>yaml.safe_load\<close> rejects.  For a campaign folder that the marker check
  lets through, the loader logs an error and goes on to the folders listed after it with the
  briefs collected so far; when the loader returns, the error is in the log and no returned
  brief carries the name or the path of the folder.
\<close>

lemma unparsable_brief_skipped:
  assumes "root = campaigns_root campaigns_dir"
    and "root \<in> dirs w"
    and "children w root = pre @ name # post"
    and "join root name \<in> dirs w"
    and "marker_open w (join root name)"
    and "brief_malformed w (join root name)"
  shows "load_campaign_briefs campaigns_dir w =
           (case scan_campaigns root pre [] w of
              (Inl e, w1) \<Rightarrow> (Inl e, w1)
            | (Inr bs, w1) \<Rightarrow>
                scan_campaigns root post bs
                  (log_msg ERROR [Lit ''Failed to parse '', Lit (join (join root name) BRIEF_FILE),
                     Lit '': '', Exc YAMLError] (snd (check_completed name (join root name) w1))))
         \<and> (\<forall>briefs w'. load_campaign_briefs campaigns_dir w = (Inr briefs, w') \<longrightarrow>
               (ERROR, [Lit ''Failed to parse '', Lit (join (join root name) BRIEF_FILE),
                     Lit '': '', Exc YAMLError]) \<in> set (log_records w')
               \<and> (\<forall>b \<in> set briefs. campaign_name_of b \<noteq> Some (YStr name)
                  \<and> campaign_path_of b \<noteq> Some (YStr (join root name))))"
proof -
  let ?err = "[Lit ''Failed to parse '', Lit (join (join root name) BRIEF_FILE),
                     Lit '': '', Exc YAMLError]"
  let ?after = "\<lambda>w1. log_msg ERROR ?err (snd (check_completed name (join root name) w1))"
  have load: "load_campaign_briefs campaigns_dir w = scan_campaigns root (pre @ name # post) [] w"
    using assms(1-3) by (simp add: load_campaign_briefs_def path_exists_def)
  obtain r w1 where pre: "scan_campaigns root pre [] w = (r, w1)"
    by (cases "scan_campaigns root pre [] w")
  have ol: "only_logs w w1" using scan_campaigns_only_logs[of w root pre "[]"] pre by simp
  then have "join root name \<in> dirs w1" "marker_open w1 (join root name)"
    "brief_malformed w1 (join root name)"
    using assms(4-6) by (simp_all add: only_logs_fs marker_open_only_logs brief_malformed_only_logs)
  note step = scan_campaigns_past_malformed[OF this]
  have eq: "load_campaign_briefs campaigns_dir w =
           (case scan_campaigns root pre [] w of
              (Inl e, w1) \<Rightarrow> (Inl e, w1)
            | (Inr bs, w1) \<Rightarrow> scan_campaigns root post bs (?after w1))"
    using step pre load by (simp add: scan_campaigns_append split: sum.splits)
  have fin: "(ERROR, ?err) \<in> set (log_records w')
               \<and> (\<forall>b \<in> set briefs. campaign_name_of b \<noteq> Some (YStr name)
                  \<and> campaign_path_of b \<noteq> Some (YStr (join root name)))"
    if ret: "load_campaign_briefs campaigns_dir w = (Inr briefs, w')" for briefs w'
  proof
    from ret eq pre obtain bs where r: "r = Inr bs"
      and post: "scan_campaigns root post bs (?after w1) = (Inr briefs, w')"
      by (cases r) auto
    have "only_logs (?after w1) w'"
      using scan_campaigns_only_logs[of "?after w1" root post bs] post by simp
    then have "set (log_records (?after w1)) \<subseteq> set (log_records w')"
      by (rule only_logs_fs)
    then show "(ERROR, ?err) \<in> set (log_records w')"
      by (auto simp: log_msg_def)
    from ret load have "scan_campaigns root (pre @ name # post) [] w = (Inr briefs, w')" by simp
    from scan_campaigns_excludes[OF _ this, of name] assms(6)
    show "\<forall>b \<in> set briefs. campaign_name_of b \<noteq> Some (YStr name)
                  \<and> campaign_path_of b \<noteq> Some (YStr (join root name))"
      by (simp add: none_from_def)
  qed
  from eq fin show ?thesis by blast
qed

lemma unparsable_brief_example:
  "load_campaign_briefs None two_campaigns_first_malformed =
       (Inr [[(YStr ''products'', YList [YStr ''Mug'']), (YStr ''campaign_name'', YStr ''b''),
             (YStr ''campaign_path'', YStr ''campaigns/b'')]],
        two_campaigns_first_malformed\<lparr>log_records :=
          [(ERROR, [Lit ''Failed to parse '', Lit ''campaigns/a/brief.yaml'', Lit '': '',
                    Exc YAMLError]),
           (INFO, [Lit ''Loaded campaign: '', Lit ''b''])]\<rparr>)"
  by (simp add: two_campaigns_first_malformed_def loader_eval)

text \<open>
  A brief file that parses to a value that is not a mapping: the item assignment of line 46
  raises \<open>TypeError\<close>, which \<open>except yaml.YAMLError\<close> does not catch, so the loader raises.
\<close>

lemma load_brief_not_mapping:
  assumes "join cd BRIEF_FILE \<notin> dirs w"
    and "files w (join cd BRIEF_FILE) = Some (Yaml y)"
    and "\<forall>kv. y \<noteq> YDict kv"
  shows "load_brief name cd bs w = (Inl TypeError, w)"
  using assms
  by (cases y) (simp_all add: load_brief_def path_exists_def yaml_load_path_def)

lemma scan_campaigns_aborts:
  assumes "join root name \<in> dirs w" and "marker_open w (join root name)"
    and "join (join root name) BRIEF_FILE \<notin> dirs w"
    and "files w (join (join root name) BRIEF_FILE) = Some (Yaml y)"
    and "\<forall>kv. y \<noteq> YDict kv"
  shows "fst (scan_campaigns root (name # rest) bs w) = Inl TypeError"
proof -
  obtain r w1 where c: "check_completed name (join root name) w = (r, w1)"
    by (cases "check_completed name (join root name) w")
  with check_completed_open[OF assms(2), of name] have r: "r = Inr False" by simp
  have "only_logs w w1" using check_completed_only_logs[of w name "join root name"] c by simp
  then have "join (join root name) BRIEF_FILE \<notin> dirs w1"
    and "files w1 (join (join root name) BRIEF_FILE) = Some (Yaml y)"
    using assms(3,4) by (simp_all add: only_logs_fs)
  from load_brief_not_mapping[OF this assms(5)] c r assms(1) show ?thesis by simp
qed

text \<open>
  Claim C4 fails on the code by a missed case.  The brief file of the first folder is empty:
  \<open>yaml.safe_load\<close> returns \<open>None\<close>, line 46 raises \<open>TypeError\<close>, and the loader raises it.
  Nothing is logged, no brief is returned, and the second folder, whose brief is well
  formed, is never scanned.
\<close>

theorem empty_brief_aborts_scan:
  "load_campaign_briefs None two_campaigns_first_empty = (Inl TypeError, two_campaigns_first_empty)"
  by (simp add: two_campaigns_first_empty_def loader_eval)

text \<open>
  The marker check misses a case of the same kind: a marker that parses to a sequence has no
  \<open>get\<close>, line 35 raises \<open>AttributeError\<close>, and the loader raises it.
\<close>

lemma list_marker_aborts_scan:
  "load_campaign_briefs None two_campaigns_first_marker_list =
     (Inl AttributeError, two_campaigns_first_marker_list)"
  by (simp add: two_campaigns_first_marker_list_def loader_eval)


section \<open>Properties of the image processor\<close>

subsection \<open>Cropping\<close>

lemma final_result_16x9:
  "final_result lib im ''16x9'' =
     Inr \<lparr>im_size = (1536, 864), im_mode = im_mode im,
          im_pixels = (\<lambda>(x, y). resample lib im (1536, 1536) (x, y + 336))\<rparr>"
  by (simp add: final_result_def image_resize_def image_crop_def)

lemma final_result_9x16:
  "final_result lib im ''9x16'' =
     Inr \<lparr>im_size = (864, 1536), im_mode = im_mode im,
          im_pixels = (\<lambda>(x, y). resample lib im (1536, 1536) (x + 336, y))\<rparr>"
  by (simp add: final_result_def image_resize_def image_crop_def)

lemma crop_to_ratio_saved:
  assumes "final_result lib im ratio = Inr out"
    and "save_error lib out out_path (crop_log im ratio w) = None"
    and "out_path \<notin> dirs w"
  shows "\<exists>w'. crop_to_ratio lib im out_path ratio w = (Inr (), w')
            \<and> files w' out_path = Some (Picture out)"
  using assms
  by (simp add: crop_to_ratio_def image_save_def write_file_def crop_log_def log_msg_def
      case_prod_beta Let_def)

text \<open>
  Claim C6.  For an image of positive size and ratio \<open>16x9\<close>, the image that \<open>crop_to_ratio\<close>
  saves has size 1536 by 864, and for \<open>9x16\<close> size 864 by 1536: it is the resize of the
  input to 1536 by 1536, cut to the centred band.  It is a function of the input alone, and it
  is the content of \<open>out_path\<close> when \<open>crop_to_ratio\<close> returns, which it does whenever the
  save is accepted.
\<close>

theorem crop_to_ratio_exact:
  assumes "0 < fst (im_size im)" and "0 < snd (im_size im)"
  shows "(\<exists>out. final_result lib im ''16x9'' = Inr out \<and> im_size out = (1536, 864)
            \<and> (\<forall>x y. im_pixels out (x, y) =
                  im_pixels (image_resize lib im (1536, 1536)) (x, y + (1536 - 864) div 2))
            \<and> (save_error lib out out_path (crop_log im ''16x9'' w) = None \<and> out_path \<notin> dirs w \<longrightarrow>
                  (\<exists>w'. crop_to_ratio lib im out_path ''16x9'' w = (Inr (), w')
                     \<and> files w' out_path = Some (Picture out))))
       \<and> (\<exists>out. final_result lib im ''9x16'' = Inr out \<and> im_size out = (864, 1536)
            \<and> (\<forall>x y. im_pixels out (x, y) =
                  im_pixels (image_resize lib im (1536, 1536)) (x + (1536 - 864) div 2, y))
            \<and> (save_error lib out out_path (crop_log im ''9x16'' w) = None \<and> out_path \<notin> dirs w \<longrightarrow>
                  (\<exists>w'. crop_to_ratio lib im out_path ''9x16'' w = (Inr (), w')
                     \<and> files w' out_path = Some (Picture out))))"
proof (intro conjI)
  let ?a = "\<lparr>im_size = (1536, 864), im_mode = im_mode im,
          im_pixels = (\<lambda>(x, y). resample lib im (1536, 1536) (x, y + 336))\<rparr>"
  let ?b = "\<lparr>im_size = (864, 1536), im_mode = im_mode im,
          im_pixels = (\<lambda>(x, y). resample lib im (1536, 1536) (x + 336, y))\<rparr>"
  show "\<exists>out. final_result lib im ''16x9'' = Inr out \<and> im_size out = (1536, 864)
            \<and> (\<forall>x y. im_pixels out (x, y) =
                  im_pixels (image_resize lib im (1536, 1536)) (x, y + (1536 - 864) div 2))
            \<and> (save_error lib out out_path (crop_log im ''16x9'' w) = None \<and> out_path \<notin> dirs w \<longrightarrow>
                  (\<exists>w'. crop_to_ratio lib im out_path ''16x9'' w = (Inr (), w')
                     \<and> files w' out_path = Some (Picture out)))"
    using crop_to_ratio_saved[OF final_result_16x9, of lib im out_path w]
    by (intro exI[of _ ?a]) (simp add: final_result_16x9 image_resize_def)
  show "\<exists>out. final_result lib im ''9x16'' = Inr out \<and> im_size out = (864, 1536)
            \<and> (\<forall>x y. im_pixels out (x, y) =
                  im_pixels (image_resize lib im (1536, 1536)) (x + (1536 - 864) div 2, y))
            \<and> (save_error lib out out_path (crop_log im ''9x16'' w) = None \<and> out_path \<notin> dirs w \<longrightarrow>
                  (\<exists>w'. crop_to_ratio lib im out_path ''9x16'' w = (Inr (), w')
                     \<and> files w' out_path = Some (Picture out)))"
    using crop_to_ratio_saved[OF final_result_9x16, of lib im out_path w]
    by (intro exI[of _ ?b]) (simp add: final_result_9x16 image_resize_def)
qed

theorem crop_to_ratio_exact_witness:
  "0 < fst (im_size (white_square 20)) \<and> 0 < snd (im_size (white_square 20))
   \<and> (\<exists>out. final_result plain_imaging (white_square 20) ''16x9'' = Inr out
          \<and> im_size out = (1536, 864)
          \<and> (\<exists>w'. crop_to_ratio plain_imaging (white_square 20) ''wide.png'' ''16x9'' studio =
                 (Inr (), w') \<and> files w' ''wide.png'' = Some (Picture out)))
   \<and> (\<exists>out. final_result plain_imaging (white_square 20) ''9x16'' = Inr out
          \<and> im_size out = (864, 1536))"
proof -
  have pos: "0 < fst (im_size (white_square 20))" "0 < snd (im_size (white_square 20))"
    by (simp_all add: white_square_def image_new_def)
  have sav: "\<And>out ratio. save_error plain_imaging out ''wide.png''
      (crop_log (white_square 20) ratio studio) = None \<and> ''wide.png'' \<notin> dirs studio"
    by (simp add: plain_imaging_def studio_def)
  from crop_to_ratio_exact [OF pos, of plain_imaging "''wide.png''" studio] pos sav
  show ?thesis by blast
qed

subsection \<open>Text overlay\<close>

lemma dropWhile_all: "(dropWhile P xs = []) = (\<forall>x \<in> set xs. P x)"
  by (rule dropWhile_eq_Nil_conv)

lemma py_strip_empty_iff: "(py_strip s = []) = (\<forall>c \<in> set s. py_isspace c)"
proof
  assume e: "py_strip s = []"
  let ?t = "dropWhile py_isspace (rev s)"
  have "?t = []"
  proof (rule ccontr)
    assume ne: "?t \<noteq> []"
    then have "\<not> py_isspace (hd ?t)" by (rule hd_dropWhile)
    moreover have "hd ?t \<in> set ?t" using ne by (rule hd_in_set)
    moreover from e have "\<forall>x \<in> set (rev ?t). py_isspace x"
      by (simp only: py_strip_def dropWhile_all)
    ultimately show False by simp
  qed
  then have "\<forall>x \<in> set (rev s). py_isspace x"
    by (simp only: dropWhile_all)
  then show "\<forall>c \<in> set s. py_isspace c" by simp
next
  assume "\<forall>c \<in> set s. py_isspace c"
  then have "\<forall>c \<in> set (rev s). py_isspace c" by simp
  then have "dropWhile py_isspace (rev s) = []" by (simp only: dropWhile_all)
  then show "py_strip s = []" by (simp only: py_strip_def rev.simps dropWhile.simps)
qed

lemma layout_loop_none:
  "\<forall>s \<in> set sizes. \<not> text_fits lib msg mw mh s \<Longrightarrow> layout_loop lib msg sizes mw mh w = (None, w)"
  by (induction sizes) (auto simp: text_fits_def Let_def split: option.splits prod.splits)

lemma layout_loop_world:
  "snd (layout_loop lib msg sizes mw mh w) = w \<or>
   (\<exists>m. snd (layout_loop lib msg sizes mw mh w) = log_msg DEBUG m w)"
  by (induction sizes) (auto simp: Let_def split: option.splits prod.splits)

lemma layout_loop_some:
  "layout_loop lib msg sizes mw mh w = (Some (f, t, tw, th), w') \<Longrightarrow> \<exists>m. w' = log_msg DEBUG m w"
  by (induction sizes) (auto simp: Let_def split: option.splits prod.splits if_splits)

lemma layout_loop_heap [simp]: "heap (snd (layout_loop lib msg sizes mw mh w)) = heap w"
  using layout_loop_world[of lib msg sizes mw mh w] by (auto simp: log_msg_def)

lemma layout_loop_files [simp]: "files (snd (layout_loop lib msg sizes mw mh w)) = files w"
  using layout_loop_world[of lib msg sizes mw mh w] by (auto simp: log_msg_def)

lemma layout_loop_dirs [simp]: "dirs (snd (layout_loop lib msg sizes mw mh w)) = dirs w"
  using layout_loop_world[of lib msg sizes mw mh w] by (auto simp: log_msg_def)

lemma layout_loop_result:
  "layout_loop lib msg sizes mw mh w = (r, w') \<Longrightarrow>
     heap w' = heap w \<and> files w' = files w \<and> dirs w' = dirs w"
  using layout_loop_heap[of lib msg sizes mw mh w] layout_loop_files[of lib msg sizes mw mh w]
    layout_loop_dirs[of lib msg sizes mw mh w] by simp

lemma space_is_space: "py_isspace CHR '' ''"
  by (simp add: py_isspace_def)

lemma sale_not_blank: "\<not> (''Sale'' = [] \<or> (\<forall>c \<in> set ''Sale''. py_isspace c))"
  by (simp add: py_isspace_def)

lemma sale_never_fits_small:
  "\<not> text_fits plain_imaging ''Sale'' (available (fst (im_size (deref studio 0))))
        (available (snd (im_size (deref studio 0)))) s"
  by (simp add: text_fits_def get_font_def plain_imaging_def available_def margin_def deref_def
      studio_def white_square_def image_new_def split: option.splits)

text \<open>
  Claim C7.  For an image object of the heap, \<open>add_text_overlay\<close> returns without raising
  (1) the input object itself, in an unchanged world, when the text is empty or whitespace
  only, and (2) an object equal to the input (size, mode and pixels) when no font size of
  \<open>range(font_size, 12, -4)\<close> makes the measured text fit the image less its margins.
\<close>

theorem overlay_returns_input:
  assumes "image_in < length (heap w)"
  shows "(msg = [] \<or> (\<forall>c \<in> set msg. py_isspace c) \<longrightarrow>
           add_text_overlay lib image_in msg font_size opacity w = (Inr image_in, w))
       \<and> ((\<forall>s \<in> set (font_sizes (case font_size of None \<Rightarrow> FONT_SIZE | Some n \<Rightarrow> n)).
              \<not> text_fits lib msg (available (fst (im_size (deref w image_in))))
                   (available (snd (im_size (deref w image_in)))) s) \<longrightarrow>
           (\<exists>r w'. add_text_overlay lib image_in msg font_size opacity w = (Inr r, w')
              \<and> deref w' r = deref w image_in \<and> deref w' image_in = deref w image_in))"
proof (intro conjI impI)
  assume "msg = [] \<or> (\<forall>c \<in> set msg. py_isspace c)"
  then have "msg = [] \<or> py_strip msg = []" by (simp add: py_strip_empty_iff)
  then show "add_text_overlay lib image_in msg font_size opacity w = (Inr image_in, w)"
    by (auto simp: add_text_overlay_def)
next
  let ?start = "case font_size of None \<Rightarrow> FONT_SIZE | Some n \<Rightarrow> n"
  let ?im = "deref w image_in"
  assume nofit: "\<forall>s \<in> set (font_sizes ?start).
     \<not> text_fits lib msg (available (fst (im_size ?im))) (available (snd (im_size ?im))) s"
  show "\<exists>r w'. add_text_overlay lib image_in msg font_size opacity w = (Inr r, w')
              \<and> deref w' r = deref w image_in \<and> deref w' image_in = deref w image_in"
  proof (cases "msg = [] \<or> py_strip msg = []")
    case True
    then show ?thesis by (auto simp: add_text_overlay_def)
  next
    case False
    let ?w1 = "w\<lparr>heap := heap w @ [?im]\<rparr>"
    have loop: "layout_loop lib msg (font_sizes ?start) (available (fst (im_size ?im)))
                 (available (snd (im_size ?im))) ?w1 = (None, ?w1)"
      using nofit by (rule layout_loop_none)
    have "add_text_overlay lib image_in msg font_size opacity w =
            (Inr (length (heap w)),
             log_msg WARNING [Lit ''Could not fit text in available space, using original text''] ?w1)"
      using False loop
      by (simp add: add_text_overlay_def alloc_def deref_def Let_def find_optimal_text_layout_def
          available_def case_prod_beta)
    then show ?thesis using assms
      by (simp add: deref_def log_msg_def nth_append)
  qed
qed

theorem overlay_returns_input_witness:
  "0 < length (heap studio)
   \<and> add_text_overlay plain_imaging 0 ''  '' None None studio = (Inr 0, studio)
   \<and> (\<exists>r w'. add_text_overlay plain_imaging 0 ''Sale'' None None studio = (Inr r, w')
          \<and> deref w' r = deref studio 0)"
proof -
  have v: "0 < length (heap studio)" by (simp add: studio_def)
  from overlay_returns_input [OF v, where msg = "''  ''" and lib = plain_imaging
      and font_size = None and opacity = None] space_is_space
  have a: "add_text_overlay plain_imaging 0 ''  '' None None studio = (Inr 0, studio)"
    by simp
  from overlay_returns_input [OF v, where msg = "''Sale''" and lib = plain_imaging
      and font_size = None and opacity = None] sale_never_fits_small
  have b: "\<exists>r w'. add_text_overlay plain_imaging 0 ''Sale'' None None studio = (Inr r, w')
          \<and> deref w' r = deref studio 0"
    by auto
  from v a b show ?thesis by blast
qed


text \<open>
  Claim C10.  \<open>add_text_overlay\<close> never raises and changes no image object that existed
  before the call, the input among them, nor any file or directory; for a text that is not
  blank the result is an object created by the call.
\<close>

theorem overlay_keeps_input:
  assumes "image_in < length (heap w)"
  shows "\<exists>r w'. add_text_overlay lib image_in msg font_size opacity w = (Inr r, w')
           \<and> take (length (heap w)) (heap w') = heap w
           \<and> deref w' image_in = deref w image_in
           \<and> files w' = files w \<and> dirs w' = dirs w
           \<and> r < length (heap w')
           \<and> (if msg = [] \<or> (\<forall>c \<in> set msg. py_isspace c) then r = image_in \<and> w' = w
               else length (heap w) \<le> r)"
proof (cases "msg = [] \<or> py_strip msg = []")
  case True
  then show ?thesis using assms
    by (auto simp: add_text_overlay_def py_strip_empty_iff)
next
  case False
  then have nb: "\<not> (msg = [] \<or> (\<forall>c \<in> set msg. py_isspace c))"
    by (simp add: py_strip_empty_iff)
  let ?n = "length (heap w)"
  let ?im = "deref w image_in"
  let ?w1 = "w\<lparr>heap := heap w @ [?im]\<rparr>"
  let ?start = "case font_size of None \<Rightarrow> FONT_SIZE | Some n \<Rightarrow> n"
  obtain layout w2 where loop: "layout_loop lib msg (font_sizes ?start)
       (fst (im_size ?im) - 2 * margin (fst (im_size ?im)))
       (snd (im_size ?im) - 2 * margin (snd (im_size ?im))) ?w1 = (layout, w2)"
    by (cases "layout_loop lib msg (font_sizes ?start)
       (fst (im_size ?im) - 2 * margin (fst (im_size ?im)))
       (snd (im_size ?im) - 2 * margin (snd (im_size ?im))) ?w1")
  from layout_loop_result[OF loop]
  have h2: "heap w2 = heap w @ [?im]" and f2: "files w2 = files w" and d2: "dirs w2 = dirs w"
    by simp_all
  show ?thesis
  proof (cases layout)
    case None
    have "add_text_overlay lib image_in msg font_size opacity w =
            (Inr ?n,
             log_msg WARNING [Lit ''Could not fit text in available space, using original text''] w2)"
      using False loop None
      by (simp add: add_text_overlay_def alloc_def deref_def Let_def find_optimal_text_layout_def
          case_prod_beta)
    then show ?thesis using assms nb h2 f2 d2
      by (simp add: deref_def log_msg_def nth_append)
  next
    case (Some l)
    obtain fnt ftxt fw fh where l: "l = (fnt, ftxt, fw, fh)" by (cases l)
    let ?x = "fst (im_size ?im) - fw - margin (fst (im_size ?im))"
    let ?y = "snd (im_size ?im) - fh - margin (snd (im_size ?im))"
    let ?ov = "draw_text lib
        (draw_rectangle (image_new ''RGBA'' (im_size ?im) [0, 0, 0, 0])
           (?x - 10, ?y - 10, ?x + fw + 10, ?y + fh + 10) [0, 0, 0, 100])
        (?x, ?y) ftxt fnt [255, 255, 255, case opacity of None \<Rightarrow> TEXT_OPACITY | Some n \<Rightarrow> n]"
    have ov: "im_mode ?ov = ''RGBA''" "im_size ?ov = im_size ?im"
      by (simp_all add: draw_text_def draw_rectangle_def image_new_def)
    show ?thesis
    proof (cases "im_mode ?im = ''RGBA''")
      case True
      have "add_text_overlay lib image_in msg font_size opacity w =
              (Inr (?n + 2),
               w2\<lparr>heap := heap w @ [?im, ?ov,
                 ?im\<lparr>im_pixels := (\<lambda>p. blend lib (im_pixels ?im p) (im_pixels ?ov p))\<rparr>]\<rparr>)"
        using False loop Some l True h2 ov
        by (simp add: add_text_overlay_def alloc_def deref_def store_def Let_def
            find_optimal_text_layout_def case_prod_beta nth_append alpha_composite_def
            list_update_append)
      then show ?thesis using assms nb f2 d2
        by (simp add: deref_def nth_append)
    next
      case False
      let ?c = "image_convert lib ?im ''RGBA''"
      have c: "im_mode ?c = ''RGBA''" "im_size ?c = im_size ?im"
        by (simp_all add: image_convert_def)
      have "add_text_overlay lib image_in msg font_size opacity w =
              (Inr (?n + 3),
               w2\<lparr>heap := heap w @ [?im, ?ov, ?c,
                 ?c\<lparr>im_pixels := (\<lambda>p. blend lib (im_pixels ?c p) (im_pixels ?ov p))\<rparr>]\<rparr>)"
        using \<open>\<not> (msg = [] \<or> py_strip msg = [])\<close> loop Some l False h2 ov c
        by (simp add: add_text_overlay_def alloc_def deref_def store_def Let_def
            find_optimal_text_layout_def case_prod_beta nth_append alpha_composite_def
            list_update_append)
      then show ?thesis using assms nb f2 d2
        by (simp add: deref_def nth_append)
    qed
  qed
qed

theorem overlay_keeps_input_witness:
  "1 < length (heap studio)
   \<and> (\<exists>r w'. add_text_overlay plain_imaging 1 ''Sale'' None None studio = (Inr r, w')
          \<and> deref w' 1 = deref studio 1 \<and> length (heap studio) \<le> r)"
proof -
  have v: "1 < length (heap studio)" by (simp add: studio_def)
  from overlay_keeps_input [OF v, where msg = "''Sale''" and lib = plain_imaging
      and font_size = None and opacity = None] sale_not_blank v
  show ?thesis by auto
qed

section \<open>Properties of outpainting\<close>

text \<open>
  Claim C9, as the code has it.  Once the canvas is saved and the remote call is made: when the
  call raises, both temporary files stay; when it returns and the payload is extracted and
  decoded, both are removed (also when the decoded bytes are no image); when it returns and
  \<open>result.data[0].b64_json\<close> or its decoding raises, both stay.
\<close>

theorem outpaint_temp_files:
  assumes "save_error lib (rgba_canvas lib canvas) ''temp_canvas.png'' w = None"
    and "''temp_canvas.png'' \<notin> dirs w" and "''temp_mask.png'' \<notin> dirs w"
    and "reply = images_edit svc (Some (Picture (rgba_canvas lib canvas)))
            (Some (Picture (make_outpaint_mask (rgba_canvas lib canvas) inner_box)))
            (take 999 prompt)"
  shows "\<exists>r w'. outpaint_with_dalle lib svc canvas inner_box prompt w = (r, w')
          \<and> (case reply of
                Inl e \<Rightarrow>
                  r = Inl e
                  \<and> files w' ''temp_canvas.png'' = Some (Picture (rgba_canvas lib canvas))
                  \<and> files w' ''temp_mask.png'' =
                      Some (Picture (make_outpaint_mask (rgba_canvas lib canvas) inner_box))
              | Inr data \<Rightarrow>
                  (case payload svc data of
                     Inl e \<Rightarrow>
                       r = Inl e
                       \<and> files w' ''temp_canvas.png'' = Some (Picture (rgba_canvas lib canvas))
                       \<and> files w' ''temp_mask.png'' =
                           Some (Picture (make_outpaint_mask (rgba_canvas lib canvas) inner_box))
                   | Inr img_bytes \<Rightarrow>
                       files w' ''temp_canvas.png'' = None \<and> files w' ''temp_mask.png'' = None
                       \<and> r = (case image_open svc img_bytes of
                                None \<Rightarrow> Inl UnidentifiedImageError
                              | Some im \<Rightarrow> Inr im)))"
  using assms
  by (auto simp: outpaint_with_dalle_def rgba_canvas_def image_save_def write_file_def
      os_remove_def log_msg_def Let_def split: sum.splits option.splits)

theorem outpaint_temp_files_witness:
  "fst (outpaint_with_dalle plain_imaging failing_remote (white_square 20) (4, 4, 16, 16)
          ''a tea set'' studio) = Inl (RemoteError ''rate limit'')
   \<and> files (snd (outpaint_with_dalle plain_imaging failing_remote (white_square 20) (4, 4, 16, 16)
          ''a tea set'' studio)) ''temp_canvas.png'' =
       Some (Picture (rgba_canvas plain_imaging (white_square 20)))"
  using outpaint_temp_files [of plain_imaging "white_square 20" studio
      "Inl (RemoteError ''rate limit'')" failing_remote "(4, 4, 16, 16)" "''a tea set''"]
  by (auto simp: plain_imaging_def studio_def failing_remote_def)

text \<open>
  Claim C9 as stated fails: a call that returns with an empty \<open>data\<close> list makes line 111
  raise \<open>IndexError\<close> before the clean-up, and both temporary files stay.
\<close>

theorem outpaint_leaves_temp_files_on_empty_reply:
  "fst (outpaint_with_dalle plain_imaging empty_reply (white_square 20) (4, 4, 16, 16)
          ''a tea set'' studio) = Inl IndexError
   \<and> files (snd (outpaint_with_dalle plain_imaging empty_reply (white_square 20) (4, 4, 16, 16)
          ''a tea set'' studio)) ''temp_canvas.png'' \<noteq> None
   \<and> files (snd (outpaint_with_dalle plain_imaging empty_reply (white_square 20) (4, 4, 16, 16)
          ''a tea set'' studio)) ''temp_mask.png'' \<noteq> None"
  by (simp add: outpaint_with_dalle_def plain_imaging_def empty_reply_def studio_def
      white_square_def image_new_def image_convert_def image_save_def write_file_def payload_def
      log_msg_def Let_def)

section \<open>Properties of the campaign processor\<close>

subsection \<open>What a path is after a call\<close>

lemma same_at_refl [simp]: "same_at p w w"
  by (simp add: same_at_def)

lemma same_at_trans: "same_at p w w' \<Longrightarrow> same_at p w' w'' \<Longrightarrow> same_at p w w''"
  by (simp add: same_at_def)

lemma same_at_log_msg [simp]: "same_at p w (log_msg l m w') = same_at p w w'"
  by (simp add: same_at_def log_msg_def)

lemma same_at_log_msg_left [simp]: "same_at p (log_msg l m w) w' = same_at p w w'"
  by (simp add: same_at_def log_msg_def)

lemma last_join: "n \<noteq> [] \<Longrightarrow> last (join p n) = last n"
  by (simp add: join_def)

lemma marker_not_results: "join a ''meta.yaml'' \<noteq> join b RESULTS_DIR"
proof
  assume "join a ''meta.yaml'' = join b RESULTS_DIR"
  then have "last (join a ''meta.yaml'') = last (join b RESULTS_DIR)" by simp
  then show False by (simp add: last_join RESULTS_DIR_def)
qed


lemma worker_keeps_mono:
  "worker_keeps worker C P \<Longrightarrow> C' \<subseteq> C \<Longrightarrow> P' \<subseteq> P \<Longrightarrow> worker_keeps worker C' P'"
  unfolding worker_keeps_def by blast

lemma worker_keeps_same_at:
  "worker_keeps worker C P \<Longrightarrow> cp \<in> C \<Longrightarrow> p \<in> P \<Longrightarrow>
     same_at p w (snd (worker b product asset rp cp langs w))"
  unfolding worker_keeps_def same_at_def by blast

lemma mkdir_same_at:
  "p \<noteq> join parent name \<Longrightarrow> same_at p w (snd (mkdir_exist_ok parent name w))"
  by (simp add: mkdir_exist_ok_def same_at_def Let_def)

lemma mkdir_failure: "mkdir_exist_ok parent name w = (Inl e, w') \<Longrightarrow> w' = w"
  by (simp add: mkdir_exist_ok_def Let_def split: if_splits)


lemma product_step_same_at:
  "worker_keeps worker C {p} \<Longrightarrow> cp \<in> C \<Longrightarrow>
     same_at p w (snd (product_step worker b assets rp cp langs n ip w))"
proof -
  assume k: "worker_keeps worker C {p}" and c: "cp \<in> C"
  obtain i product where ip: "ip = (i, product)" by (cases ip)
  show ?thesis
  proof (cases "case py_getitem assets i of Inl IndexError \<Rightarrow> Inr YNull | r \<Rightarrow> r")
    case (Inl e)
    then show ?thesis by (simp add: product_step_def ip)
  next
    case (Inr asset_file)
    let ?w = "log_msg INFO [Lit ''Processing product '', Num (int i + 1), Lit ''/'', Num (int n),
        Lit '': '', Val product] w"
    from worker_keeps_same_at[OF k c, of p ?w b product asset_file rp langs]
    show ?thesis using Inr by (simp add: product_step_def ip)
  qed
qed

lemma product_loop_same_at:
  "(\<And>x w. same_at p w (snd (step x w))) \<Longrightarrow> same_at p w (snd (product_loop step xs w))"
proof (induction xs arbitrary: w)
  case Nil
  then show ?case by simp
next
  case (Cons x xs)
  obtain r w1 where s: "step x w = (r, w1)" by (cases "step x w")
  have a: "same_at p w w1" using Cons.prems[of w x] s by simp
  show ?case
  proof (cases r)
    case (Inl e)
    with s a show ?thesis by simp
  next
    case (Inr u)
    from Cons.IH[OF Cons.prems, of w1] a s Inr show ?thesis
      by (auto intro: same_at_trans)
  qed
qed

lemma product_loop_append:
  "product_loop step (xs @ ys) w =
     (case product_loop step xs w of
        (Inl e, w') \<Rightarrow> (Inl e, w')
      | (Inr _, w') \<Rightarrow> product_loop step ys w')"
  by (induction xs arbitrary: w) (auto split: prod.splits sum.splits)

lemma product_loop_every_step:
  assumes "product_loop step (xs @ x # ys) w = (Inr u, w')"
  shows "\<exists>wa wb. product_loop step xs w = (Inr (), wa) \<and> step x wa = (Inr (), wb)
           \<and> product_loop step ys wb = (Inr (), w')"
  using assms by (auto simp: product_loop_append split: prod.splits sum.splits)

lemma product_loop_first_failure:
  assumes "product_loop step xs w = (Inr (), wa)" and "step x wa = (Inl e, wb)"
  shows "product_loop step (xs @ x # ys) w = (Inl e, wb)"
  using assms by (simp add: product_loop_append)

lemma process_single_campaign_unfold:
  assumes "campaign_name_of b = Some nm"
    and "campaign_path_of b = Some (YStr cp)"
    and "mkdir_exist_ok cp RESULTS_DIR (log_msg INFO [Lit ''Processing campaign: '', Val nm] w)
           = (Inr (), wm)"
    and "py_iter (dict_get b ''products'' (YList [])) = Inr items"
  shows "process_single_campaign worker b w =
     (case product_loop
             (product_step worker b (dict_get b ''assets'' (YList [])) (join cp RESULTS_DIR) cp
                (dict_get b ''languages'' (YList [YStr ''English''])) (length items))
             (enumerate 0 items)
             (log_msg DEBUG [Lit ''Will create results structure: '', Lit (join cp RESULTS_DIR)] wm) of
        (Inl e, w1) \<Rightarrow> (Inl e, w1)
      | (Inr _, w1) \<Rightarrow>
          (Inr (), mark_campaign_done cp None
             (log_msg INFO [Lit ''Results saved in: '', Lit (join cp RESULTS_DIR)]
                (log_msg INFO [Lit ''Completed processing campaign: '', Val nm] w1))))"
  using assms
  by (simp add: process_single_campaign_def campaign_name_of_def campaign_path_of_def Let_def
      split: prod.splits sum.splits)

lemma process_single_campaign_core:
  assumes keeps: "worker_keeps worker C {p}"
    and inC: "\<And>cp. campaign_path_of b = Some (YStr cp) \<Longrightarrow> cp \<in> C \<and> p \<noteq> join cp RESULTS_DIR"
  shows "case process_single_campaign worker b w of
           (Inl e, w') \<Rightarrow> same_at p w w'
         | (Inr u, w') \<Rightarrow>
             (\<exists>cp w2. campaign_path_of b = Some (YStr cp) \<and> same_at p w w2
                \<and> w' = mark_campaign_done cp None w2)"
proof (cases "campaign_name_of b")
  case None
  then show ?thesis by (simp add: process_single_campaign_def campaign_name_of_def)
next
  case (Some nm)
  show ?thesis
  proof (cases "campaign_path_of b")
    case None
    with Some show ?thesis
      by (simp add: process_single_campaign_def campaign_name_of_def campaign_path_of_def)
  next
    case path: (Some v)
    show ?thesis
    proof (cases "\<exists>cp. v = YStr cp")
      case False
      with Some path show ?thesis
        by (cases v)
           (simp_all add: process_single_campaign_def campaign_name_of_def campaign_path_of_def)
    next
      case True
      then obtain cp where v: "v = YStr cp" by blast
      with path have cpath: "campaign_path_of b = Some (YStr cp)" by simp
      from inC[OF cpath] have cC: "cp \<in> C" and pres: "p \<noteq> join cp RESULTS_DIR" by simp_all
      let ?w0 = "log_msg INFO [Lit ''Processing campaign: '', Val nm] w"
      obtain rm wm where mk: "mkdir_exist_ok cp RESULTS_DIR ?w0 = (rm, wm)"
        by (cases "mkdir_exist_ok cp RESULTS_DIR ?w0")
      have wm: "same_at p w wm" using mkdir_same_at[OF pres, of ?w0] mk by simp
      show ?thesis
      proof (cases rm)
        case (Inl e)
        with Some cpath mk wm show ?thesis
          by (simp add: process_single_campaign_def campaign_name_of_def campaign_path_of_def
              Let_def)
      next
        case (Inr u)
        with mk have mk': "mkdir_exist_ok cp RESULTS_DIR ?w0 = (Inr (), wm)" by simp
        show ?thesis
        proof (cases "py_iter (dict_get b ''products'' (YList []))")
          case (Inl e)
          with Some cpath mk' wm show ?thesis
            by (simp add: process_single_campaign_def campaign_name_of_def campaign_path_of_def
                Let_def)
        next
          case items: (Inr items)
          let ?step = "product_step worker b (dict_get b ''assets'' (YList []))
              (join cp RESULTS_DIR) cp (dict_get b ''languages'' (YList [YStr ''English'']))
              (length items)"
          let ?w1 = "log_msg DEBUG [Lit ''Will create results structure: '',
              Lit (join cp RESULTS_DIR)] wm"
          obtain rl wl where lp: "product_loop ?step (enumerate 0 items) ?w1 = (rl, wl)"
            by (cases "product_loop ?step (enumerate 0 items) ?w1")
          have "same_at p ?w1 (snd (product_loop ?step (enumerate 0 items) ?w1))"
            by (rule product_loop_same_at) (rule product_step_same_at[OF keeps cC])
          with lp wm have wl: "same_at p w wl" by (auto intro: same_at_trans)
          note unf = process_single_campaign_unfold[OF Some cpath mk' items, of worker]
          show ?thesis
          proof (cases rl)
            case (Inl e)
            with unf lp wl show ?thesis by simp
          next
            case (Inr u)
            let ?w2 = "log_msg INFO [Lit ''Results saved in: '', Lit (join cp RESULTS_DIR)]
                (log_msg INFO [Lit ''Completed processing campaign: '', Val nm] wl)"
            have "same_at p w ?w2" using wl by simp
            with unf lp Inr cpath show ?thesis
              by (auto intro!: exI[of _ ?w2])
          qed
        qed
      qed
    qed
  qed
qed

subsection \<open>Markers\<close>



lemma mark_campaign_done_marks:
  "cp \<in> dirs w \<Longrightarrow> join cp ''meta.yaml'' \<notin> dirs w \<Longrightarrow>
     marked_done (mark_campaign_done cp None w) cp"
  by (simp add: marked_done_def mark_campaign_done_def write_file_def log_msg_def Let_def)

lemma process_single_campaign_failure_keeps:
  assumes "process_single_campaign worker b w = (Inl e, w')"
    and "worker_keeps worker C {p}"
    and "\<And>cp. campaign_path_of b = Some (YStr cp) \<Longrightarrow> cp \<in> C \<and> p \<noteq> join cp RESULTS_DIR"
  shows "same_at p w w'"
proof -
  have "case process_single_campaign worker b w of
           (Inl e, w') \<Rightarrow> same_at p w w'
         | (Inr u, w') \<Rightarrow>
             (\<exists>cp w2. campaign_path_of b = Some (YStr cp) \<and> same_at p w w2
                \<and> w' = mark_campaign_done cp None w2)"
    by (rule process_single_campaign_core[OF assms(2)]) (rule assms(3))
  with assms(1) show ?thesis by simp
qed




lemma campaign_loop_step:
  "campaign_loop worker (b # bs) w =
     campaign_loop worker bs
       (case process_single_campaign worker b w of
          (Inr _, w') \<Rightarrow> w'
        | (Inl e, w') \<Rightarrow>
            log_msg EXCEPTION
              [Lit ''Failed to process campaign '',
               Val (dict_get b ''campaign_name'' (YStr ''unknown'')), Lit '': '', Exc e] w')"
  by (simp split: prod.splits sum.splits)



subsection \<open>The example worker\<close>

lemma hero_not_marker: "join a ''hero.png'' \<noteq> join b ''meta.yaml''"
proof
  assume "join a ''hero.png'' = join b ''meta.yaml''"
  then have "last (join a ''hero.png'') = last (join b ''meta.yaml'')" by simp
  then show False by (simp add: last_join)
qed

lemma picky_worker_keeps_markers:
  "worker_keeps picky_worker C (range (\<lambda>cp. join cp ''meta.yaml''))"
  using hero_not_marker by (auto simp: worker_keeps_def picky_worker_def dest: sym)


lemmas processing_eval =
  process_single_campaign_def product_step_def mkdir_exist_ok_def mark_campaign_done_def
  write_file_def picky_worker_def log_msg_def join_def RESULTS_DIR_def dict_get_def Let_def
  brief_a_def brief_b_def brief_c_def three_folders_def marked_done_def
  campaign_name_of_def campaign_path_of_def enumerate_eq_zip



subsection \<open>One campaign\<close>

text \<open>
  Claim C3.  For a campaign whose brief reaches the loop over the products:
  \<open>process_single_campaign\<close> returns exactly when the worker has returned without exception for
  every product, and its last effect is then \<open>_mark_campaign_done\<close>, on the world the last
  product left (which marks the campaign done when the folder is there and the marker is no
  directory); when the worker raises for a product, \<open>process_single_campaign\<close> raises the same
  exception and leaves the world as the worker left it.  Whenever \<open>process_single_campaign\<close>
  raises, the marker of the campaign is what it was before the call, provided the worker
  itself leaves the marker alone.
\<close>

theorem marker_written_after_all_products:
  assumes "campaign_name_of b = Some nm"
    and "campaign_path_of b = Some (YStr cp)"
    and "mkdir_exist_ok cp RESULTS_DIR (log_msg INFO [Lit ''Processing campaign: '', Val nm] w)
           = (Inr (), wm)"
    and "py_iter (dict_get b ''products'' (YList [])) = Inr items"
    and "step = product_step worker b (dict_get b ''assets'' (YList [])) (join cp RESULTS_DIR) cp
                  (dict_get b ''languages'' (YList [YStr ''English''])) (length items)"
    and "w0 = log_msg DEBUG [Lit ''Will create results structure: '', Lit (join cp RESULTS_DIR)] wm"
  shows "(\<forall>w1. product_loop step (enumerate 0 items) w0 = (Inr (), w1) \<longrightarrow>
            process_single_campaign worker b w =
              (Inr (), mark_campaign_done cp None
                 (log_msg INFO [Lit ''Results saved in: '', Lit (join cp RESULTS_DIR)]
                    (log_msg INFO [Lit ''Completed processing campaign: '', Val nm] w1)))
            \<and> (\<forall>xs x ys. enumerate 0 items = xs @ x # ys \<longrightarrow>
                  (\<exists>wa wb. product_loop step xs w0 = (Inr (), wa) \<and> step x wa = (Inr (), wb)))
            \<and> (cp \<in> dirs w1 \<and> join cp ''meta.yaml'' \<notin> dirs w1 \<longrightarrow>
                  marked_done (snd (process_single_campaign worker b w)) cp))
       \<and> (\<forall>xs x ys wa e wb.
            enumerate 0 items = xs @ x # ys \<and> product_loop step xs w0 = (Inr (), wa)
            \<and> step x wa = (Inl e, wb) \<longrightarrow>
            process_single_campaign worker b w = (Inl e, wb))
       \<and> (\<forall>e w'. process_single_campaign worker b w = (Inl e, w')
            \<and> worker_keeps worker {cp} {join cp ''meta.yaml''} \<longrightarrow>
            same_at (join cp ''meta.yaml'') w w')"
proof (intro conjI allI impI)
  note unf = process_single_campaign_unfold[OF assms(1-4), of worker, folded assms(5,6)]
  fix w1
  assume ok: "product_loop step (enumerate 0 items) w0 = (Inr (), w1)"
  let ?w2 = "log_msg INFO [Lit ''Results saved in: '', Lit (join cp RESULTS_DIR)]
                    (log_msg INFO [Lit ''Completed processing campaign: '', Val nm] w1)"
  from unf ok show res: "process_single_campaign worker b w =
              (Inr (), mark_campaign_done cp None ?w2)"
    by simp
  show "\<exists>wa wb. product_loop step xs w0 = (Inr (), wa) \<and> step x wa = (Inr (), wb)"
    if "enumerate 0 items = xs @ x # ys" for xs x ys
    using product_loop_every_step[of step xs x ys w0 "()" w1] ok that by auto
  show "marked_done (snd (process_single_campaign worker b w)) cp"
    if "cp \<in> dirs w1 \<and> join cp ''meta.yaml'' \<notin> dirs w1"
  proof -
    from that have "cp \<in> dirs ?w2" "join cp ''meta.yaml'' \<notin> dirs ?w2"
      by (simp_all add: log_msg_def)
    from mark_campaign_done_marks[OF this] res show ?thesis by simp
  qed
next
  note unf = process_single_campaign_unfold[OF assms(1-4), of worker, folded assms(5,6)]
  fix xs x ys wa e wb
  assume "enumerate 0 items = xs @ x # ys \<and> product_loop step xs w0 = (Inr (), wa)
            \<and> step x wa = (Inl e, wb)"
  then have "product_loop step (enumerate 0 items) w0 = (Inl e, wb)"
    using product_loop_first_failure[of step xs w0 wa x e wb ys] by simp
  with unf show "process_single_campaign worker b w = (Inl e, wb)" by simp
next
  fix e w'
  assume a: "process_single_campaign worker b w = (Inl e, w')
            \<and> worker_keeps worker {cp} {join cp ''meta.yaml''}"
  show "same_at (join cp ''meta.yaml'') w w'"
  proof (rule process_single_campaign_failure_keeps)
    show "process_single_campaign worker b w = (Inl e, w')" using a by simp
    show "worker_keeps worker {cp} {join cp ''meta.yaml''}" using a by simp
    show "cp' \<in> {cp} \<and> join cp ''meta.yaml'' \<noteq> join cp' RESULTS_DIR"
      if "campaign_path_of b = Some (YStr cp')" for cp'
      using that assms(2) marker_not_results[of cp cp'] by simp
  qed
qed

theorem marker_written_after_all_products_witness:
  "fst (process_single_campaign picky_worker brief_b three_folders) = Inl (RemoteError ''refused'')
   \<and> files (snd (process_single_campaign picky_worker brief_b three_folders))
        ''campaigns/b/meta.yaml'' = None
   \<and> marked_done (snd (process_single_campaign picky_worker brief_a three_folders)) ''campaigns/a''"
proof -
  let ?wb = "log_msg INFO [Lit ''Processing campaign: '', Val (YStr ''b'')] three_folders"
  have nb: "campaign_name_of brief_b = Some (YStr ''b'')"
    and pb: "campaign_path_of brief_b = Some (YStr ''campaigns/b'')"
    and mb: "mkdir_exist_ok ''campaigns/b'' RESULTS_DIR ?wb =
               (Inr (), snd (mkdir_exist_ok ''campaigns/b'' RESULTS_DIR ?wb))"
    and ib: "py_iter (dict_get brief_b ''products'' (YList [])) =
               Inr [YStr ''Mug'', YStr ''bad'', YStr ''Cup'']"
    by (simp_all add: processing_eval prod_eq_iff)
  note tb = marker_written_after_all_products[OF nb pb mb ib refl refl, of picky_worker]
  let ?step = "product_step picky_worker brief_b (dict_get brief_b ''assets'' (YList []))
      (join ''campaigns/b'' RESULTS_DIR) ''campaigns/b''
      (dict_get brief_b ''languages'' (YList [YStr ''English''])) (length [YStr ''Mug'', YStr ''bad'', YStr ''Cup''])"
  let ?w0 = "log_msg DEBUG [Lit ''Will create results structure: '',
      Lit (join ''campaigns/b'' RESULTS_DIR)] (snd (mkdir_exist_ok ''campaigns/b'' RESULTS_DIR ?wb))"
  let ?wa = "snd (product_loop ?step [(0, YStr ''Mug'')] ?w0)"
  have e: "enumerate 0 [YStr ''Mug'', YStr ''bad'', YStr ''Cup''] =
             [(0, YStr ''Mug'')] @ (1, YStr ''bad'') # [(2, YStr ''Cup'')]"
    by (simp add: enumerate_eq_zip)
  have l: "product_loop ?step [(0, YStr ''Mug'')] ?w0 = (Inr (), ?wa)"
    by (simp add: product_step_def picky_worker_def dict_get_def brief_b_def prod_eq_iff)
  have s: "?step (1, YStr ''bad'') ?wa = (Inl (RemoteError ''refused''), snd (?step (1, YStr ''bad'') ?wa))"
    by (simp add: product_step_def picky_worker_def dict_get_def brief_b_def prod_eq_iff)
  from tb e l s have fail: "process_single_campaign picky_worker brief_b three_folders =
      (Inl (RemoteError ''refused''), snd (?step (1, YStr ''bad'') ?wa))"
    by blast
  have "worker_keeps picky_worker {''campaigns/b''} {join ''campaigns/b'' ''meta.yaml''}"
    by (rule worker_keeps_mono[OF picky_worker_keeps_markers[of UNIV]]) auto
  with tb fail have "same_at (join ''campaigns/b'' ''meta.yaml'') three_folders
      (snd (process_single_campaign picky_worker brief_b three_folders))"
    by (metis snd_conv)
  then have none: "files (snd (process_single_campaign picky_worker brief_b three_folders))
        ''campaigns/b/meta.yaml'' = None"
    by (simp add: same_at_def join_def three_folders_def)
  have a: "marked_done (snd (process_single_campaign picky_worker brief_a three_folders)) ''campaigns/a''"
    by (simp add: processing_eval)
  from fail none a show ?thesis by simp
qed

subsection \<open>All campaigns\<close>




subsection \<open>A run and the run after it\<close>

text \<open>
  The three example briefs are what the loader returns for the example world; after the run
  in which the second campaign fails, the loader returns the second brief alone.
\<close>

lemma three_folders_loaded:
  "fst (load_campaign_briefs None three_folders) = Inr [brief_a, brief_b, brief_c]"
  by (simp add: loader_eval three_folders_def brief_a_def brief_b_def brief_c_def)

lemma three_folders_second_run:
  "fst (load_campaign_briefs None
          (campaign_loop picky_worker [brief_a, brief_b, brief_c] three_folders)) = Inr [brief_b]"
  by (simp add: processing_eval loader_eval CAMPAIGNS_DIR_def BRIEF_FILE_def campaigns_root_def
      load_campaign_briefs_def path_exists_def check_completed_def load_brief_def
      yaml_load_path_def dict_set_def)

end
